theory Spec2Isabelle
  imports Main "HOL-Library.AList" "HOL-Library.Char_ord" "HOL-Library.List_Lexorder" "HOL-Library.Multiset"
begin

section \<open>The sync engine of bd (cmd/bd/main.go)\<close>

text \<open>
  The embedding follows \<^verbatim>\<open>cmd/bd/main.go\<close>: the hash-gated auto-import
  (\<^verbatim>\<open>autoImportIfNewer\<close> and the functions it calls) and the incremental flush
  (\<^verbatim>\<open>flushToJSONL\<close> and the functions it calls). Go's package-level variables, the
  journal file, the temp file and standard error are the fields of one record \<open>world\<close>
  that every function takes and returns. An \<^verbatim>\<open>error\<close> is its message. Byte slices
  and Go strings are \<open>string\<close> (lists of 8-bit characters); Go compares strings
  bytewise, which is the lexicographic order of \<open>char list\<close>.
\<close>

subsection \<open>Data model\<close>

type_synonym bytes = string
type_synonym error = string

text \<open>A \<^verbatim>\<open>time.Time\<close> is an instant counted from Go's zero time: \<open>0\<close> is the value
  for which \<^verbatim>\<open>IsZero()\<close> holds.\<close>

type_synonym time = nat

definition IsZero :: "time \<Rightarrow> bool" where
  "IsZero t = (t = 0)"

text \<open>Modelled from the spec: the dependency and the entity of section 3, which are
  \<^verbatim>\<open>types.Dependency\<close> and \<^verbatim>\<open>types.Issue\<close> of package \<^verbatim>\<open>internal/types\<close> (not part
  of the sources at hand), with the fields that main.go reads or writes in the sync
  engine. A nil pointer field is \<open>None\<close>.\<close>

record dependency =
  IssueID :: string
  DependsOnID :: string
  DepType :: string

record issue =
  ID :: string
  Title :: string
  Description :: string
  Design :: string
  AcceptanceCriteria :: string
  Notes :: string
  Status :: string
  Priority :: int
  IssueType :: string
  Assignee :: string
  EstimatedMinutes :: "int option"
  ExternalRef :: "string option"
  CreatedAt :: time
  UpdatedAt :: time
  ClosedAt :: "time option"
  Dependencies :: "dependency list"

text \<open>The values of a \<^verbatim>\<open>map[string]interface{}\<close> built by main.go.\<close>

datatype field_value = VString string | VInt int | VTime time | VNil

type_synonym updates = "(string \<times> field_value) list"

text \<open>Modelled from the spec: one collision of section 4.4, which is
  \<^verbatim>\<open>sqlite.CollisionDetail\<close>; main.go reads its \<^verbatim>\<open>ID\<close> and its \<^verbatim>\<open>IncomingIssue\<close>.\<close>

record collision_detail =
  CollisionID :: string
  IncomingIssue :: issue
  ExistingIssue :: issue
  Score :: nat

subsection \<open>What the program takes from outside\<close>

text \<open>
  The standard library and the clock are parameters, collected in one record:
  \<^item> \<open>sha256_hex d\<close> is \<^verbatim>\<open>hex.EncodeToString(sha256.Sum(d))\<close>;
  \<^item> \<open>json_Unmarshal l\<close> is \<^verbatim>\<open>json.Unmarshal\<close> of a line into a \<^verbatim>\<open>types.Issue\<close>;
  \<^item> \<open>json_Marshal i\<close> is the JSON text that \<^verbatim>\<open>Encoder.Encode\<close> writes before the newline;
  \<^item> \<open>bytes_TrimSpace\<close> is \<^verbatim>\<open>bytes.TrimSpace\<close>;
  \<^item> \<open>now\<close> is what \<^verbatim>\<open>time.Now().UTC()\<close> returns;
  \<^item> \<open>similarity\<close> and \<open>threshold\<close> are the metric and the configured threshold of the
    collision resolver (section 4.4 of the specification leaves the metric open).
\<close>

record env =
  sha256_hex :: "bytes \<Rightarrow> string"
  json_Unmarshal :: "string \<Rightarrow> error + issue"
  json_Marshal :: "issue \<Rightarrow> bytes"
  bytes_TrimSpace :: "bytes \<Rightarrow> bytes"
  now :: time
  similarity :: "issue \<Rightarrow> issue \<Rightarrow> nat"
  threshold :: nat

subsection \<open>The store\<close>

text \<open>
  Package \<^verbatim>\<open>internal/storage/sqlite\<close> is not part of the sources at hand. The store is
  a record of its tables; a call to it can fail, and \<open>failing\<close> lists the calls that
  return an error (the same call fails each time it is made). A failed call leaves the
  store as it was (section 4.1: a failed transaction leaves the primary row and the
  dirty set unchanged).
\<close>

datatype call =
    CGetMetadata string
  | CSetMetadata string
  | CSearchIssues
  | CGetIssue string
  | CCreateIssue string
  | CUpdateIssue string
  | CGetDependencyRecords string
  | CAddDependency string string string
  | CGetDirtyIssues
  | CClearDirtyIssuesByID
  | CDetectCollisions
  | CScoreCollisions
  | CRemapCollisions

record store =
  issues :: "issue list"
  deps :: "dependency list"
  dirty :: "string list"
  metadata :: "(string \<times> string) list"
  failing :: "call list"

definition fails :: "store \<Rightarrow> call \<Rightarrow> bool" where
  "fails s c = (c \<in> set (failing s))"

definition call_error :: "call \<Rightarrow> error" where
  "call_error c = ''database error''"

text \<open>Modelled from the spec: \<^verbatim>\<open>GetMetadata(key)\<close> of section 4.1, over the string to
  string metadata map of section 3; a key that was never set reads as the empty string
  (main.go's \<^verbatim>\<open>checkVersionMismatch\<close> tests \<^verbatim>\<open>dbVersion == ""\<close> for "no version
  stored").\<close>

definition GetMetadata :: "store \<Rightarrow> string \<Rightarrow> error + string" where
  "GetMetadata s k =
     (if fails s (CGetMetadata k) then Inl (call_error (CGetMetadata k))
      else Inr (case map_of (metadata s) k of None \<Rightarrow> [] | Some v \<Rightarrow> v))"

text \<open>Modelled from the spec: \<^verbatim>\<open>SetMetadata(key, value)\<close> of section 4.1.\<close>

definition SetMetadata :: "store \<Rightarrow> string \<Rightarrow> string \<Rightarrow> error + store" where
  "SetMetadata s k v =
     (if fails s (CSetMetadata k) then Inl (call_error (CSetMetadata k))
      else Inr (s\<lparr>metadata := AList.update k v (metadata s)\<rparr>))"

text \<open>Modelled from the spec: \<^verbatim>\<open>SearchIssues\<close> with the empty query and the empty
  filter, which selects every entity (the order is not part of the sync contract).\<close>

definition SearchIssues :: "store \<Rightarrow> error + issue list" where
  "SearchIssues s =
     (if fails s CSearchIssues then Inl (call_error CSearchIssues) else Inr (issues s))"

text \<open>Modelled from the spec: \<^verbatim>\<open>GetIssue\<close>; main.go tests the result for nil, so an
  id that is not stored is \<open>None\<close>, not an error.\<close>

definition GetIssue :: "store \<Rightarrow> string \<Rightarrow> error + issue option" where
  "GetIssue s i =
     (if fails s (CGetIssue i) then Inl (call_error (CGetIssue i))
      else Inr (find (\<lambda>x. ID x = i) (issues s)))"

text \<open>Modelled from the spec: invariant I1 as section 4.7 words it. A closed entity with
  no closure time takes its update time when that is present, the current time
  otherwise; an entity that is not closed has no closure time.\<close>

definition enforce_I1 :: "time \<Rightarrow> issue \<Rightarrow> issue" where
  "enforce_I1 t i =
     (if Status i = ''closed'' then
        (case ClosedAt i of
           Some c \<Rightarrow> i
         | None \<Rightarrow> i\<lparr>ClosedAt := Some (if \<not> IsZero (UpdatedAt i) then UpdatedAt i else t)\<rparr>)
      else i\<lparr>ClosedAt := None\<rparr>)"

definition mark_dirty :: "string \<Rightarrow> string list \<Rightarrow> string list" where
  "mark_dirty i d = (if i \<in> set d then d else d @ [i])"

text \<open>Modelled from the spec: \<^verbatim>\<open>CreateIssue\<close> of section 4.1 for an entity that
  carries its id: one transaction that enforces I1 and appends the id to the dirty set.
  An id that is already stored fails the call. (Audit entries are not modelled.)\<close>

definition CreateIssue :: "time \<Rightarrow> store \<Rightarrow> issue \<Rightarrow> error + store" where
  "CreateIssue t s i =
     (if fails s (CCreateIssue (ID i)) then Inl (call_error (CCreateIssue (ID i)))
      else if ID i \<in> set (map ID (issues s)) then Inl (''issue already exists: '' @ ID i)
      else Inr (s\<lparr>issues := issues s @ [enforce_I1 t i], dirty := mark_dirty (ID i) (dirty s)\<rparr>))"

text \<open>Modelled from the spec: one entry of the update map of \<^verbatim>\<open>UpdateIssue\<close>; only
  recognised keys are applied, an unknown key (or a value of the wrong kind) fails.\<close>

fun apply_update :: "string \<times> field_value \<Rightarrow> issue \<Rightarrow> error + issue" where
  "apply_update (k, v) i =
     (if k = ''title'' then (case v of VString x \<Rightarrow> Inr (i\<lparr>Title := x\<rparr>) | _ \<Rightarrow> Inl k)
      else if k = ''description'' then (case v of VString x \<Rightarrow> Inr (i\<lparr>Description := x\<rparr>) | _ \<Rightarrow> Inl k)
      else if k = ''design'' then (case v of VString x \<Rightarrow> Inr (i\<lparr>Design := x\<rparr>) | _ \<Rightarrow> Inl k)
      else if k = ''acceptance_criteria'' then
        (case v of VString x \<Rightarrow> Inr (i\<lparr>AcceptanceCriteria := x\<rparr>) | _ \<Rightarrow> Inl k)
      else if k = ''notes'' then (case v of VString x \<Rightarrow> Inr (i\<lparr>Notes := x\<rparr>) | _ \<Rightarrow> Inl k)
      else if k = ''status'' then (case v of VString x \<Rightarrow> Inr (i\<lparr>Status := x\<rparr>) | _ \<Rightarrow> Inl k)
      else if k = ''priority'' then (case v of VInt x \<Rightarrow> Inr (i\<lparr>Priority := x\<rparr>) | _ \<Rightarrow> Inl k)
      else if k = ''issue_type'' then (case v of VString x \<Rightarrow> Inr (i\<lparr>IssueType := x\<rparr>) | _ \<Rightarrow> Inl k)
      else if k = ''assignee'' then (case v of VString x \<Rightarrow> Inr (i\<lparr>Assignee := x\<rparr>) | _ \<Rightarrow> Inl k)
      else if k = ''estimated_minutes'' then
        (case v of VInt x \<Rightarrow> Inr (i\<lparr>EstimatedMinutes := Some x\<rparr>)
                 | VNil \<Rightarrow> Inr (i\<lparr>EstimatedMinutes := None\<rparr>) | _ \<Rightarrow> Inl k)
      else if k = ''external_ref'' then
        (case v of VString x \<Rightarrow> Inr (i\<lparr>ExternalRef := Some x\<rparr>)
                 | VNil \<Rightarrow> Inr (i\<lparr>ExternalRef := None\<rparr>) | _ \<Rightarrow> Inl k)
      else if k = ''closed_at'' then
        (case v of VTime x \<Rightarrow> Inr (i\<lparr>ClosedAt := Some x\<rparr>)
                 | VNil \<Rightarrow> Inr (i\<lparr>ClosedAt := None\<rparr>) | _ \<Rightarrow> Inl k)
      else Inl k)"

fun apply_updates :: "updates \<Rightarrow> issue \<Rightarrow> error + issue" where
  "apply_updates [] i = Inr i"
| "apply_updates (u # us) i =
     (case apply_update u i of Inl e \<Rightarrow> Inl (''invalid field for update: '' @ e)
                             | Inr i' \<Rightarrow> apply_updates us i')"

text \<open>Modelled from the spec: \<^verbatim>\<open>UpdateIssue(id, updates, actor)\<close> of section 4.1: one
  transaction that applies the recognised keys, enforces I1 and appends the id to the
  dirty set; an id that is not stored fails the call.\<close>

definition UpdateIssue :: "time \<Rightarrow> store \<Rightarrow> string \<Rightarrow> updates \<Rightarrow> error + store" where
  "UpdateIssue t s i us =
     (if fails s (CUpdateIssue i) then Inl (call_error (CUpdateIssue i))
      else (case find (\<lambda>x. ID x = i) (issues s) of
              None \<Rightarrow> Inl (''issue not found: '' @ i)
            | Some old \<Rightarrow>
                (case apply_updates us old of
                   Inl e \<Rightarrow> Inl e
                 | Inr new \<Rightarrow>
                     Inr (s\<lparr>issues := map (\<lambda>x. if ID x = i then enforce_I1 t new else x) (issues s),
                            dirty := mark_dirty i (dirty s)\<rparr>))))"

text \<open>Modelled from the spec: \<^verbatim>\<open>GetDependencyRecords(id)\<close>, the edges leaving an
  entity.\<close>

definition GetDependencyRecords :: "store \<Rightarrow> string \<Rightarrow> error + dependency list" where
  "GetDependencyRecords s i =
     (if fails s (CGetDependencyRecords i) then Inl (call_error (CGetDependencyRecords i))
      else Inr (filter (\<lambda>d. IssueID d = i) (deps s)))"

text \<open>Modelled from the spec: \<^verbatim>\<open>AddDependency\<close>: both endpoints exist (I2), the triple
  is not stored twice (section 3), and the source entity becomes dirty.\<close>

definition AddDependency :: "store \<Rightarrow> dependency \<Rightarrow> error + store" where
  "AddDependency s d =
     (if fails s (CAddDependency (IssueID d) (DependsOnID d) (DepType d))
        then Inl (call_error (CAddDependency (IssueID d) (DependsOnID d) (DepType d)))
      else if IssueID d \<notin> set (map ID (issues s)) \<or> DependsOnID d \<notin> set (map ID (issues s))
        then Inl ''dependency endpoint not found''
      else if d \<in> set (deps s) then Inl ''dependency already exists''
      else Inr (s\<lparr>deps := deps s @ [d], dirty := mark_dirty (IssueID d) (dirty s)\<rparr>))"

text \<open>Modelled from the spec: \<^verbatim>\<open>GetDirtyIssues()\<close> and \<^verbatim>\<open>ClearDirtyIssuesByID(ids)\<close>
  of section 4.1; the second removes the given ids from the dirty set and no other.\<close>

definition GetDirtyIssues :: "store \<Rightarrow> error + string list" where
  "GetDirtyIssues s =
     (if fails s CGetDirtyIssues then Inl (call_error CGetDirtyIssues) else Inr (dirty s))"

definition ClearDirtyIssuesByID :: "store \<Rightarrow> string list \<Rightarrow> error + store" where
  "ClearDirtyIssuesByID s ids =
     (if fails s CClearDirtyIssuesByID then Inl (call_error CClearDirtyIssuesByID)
      else Inr (s\<lparr>dirty := filter (\<lambda>i. i \<notin> set ids) (dirty s)\<rparr>))"

text \<open>Modelled from the spec: collision detection (section 4.4, step 1): an incoming
  entity collides when an entity with its id is stored and differs from it in a tracked
  field other than \<^verbatim>\<open>updated_at\<close> (dependencies are edges of their own, section 3).\<close>

definition same_content :: "issue \<Rightarrow> issue \<Rightarrow> bool" where
  "same_content a b =
     (a\<lparr>UpdatedAt := 0, Dependencies := []\<rparr> = b\<lparr>UpdatedAt := 0, Dependencies := []\<rparr>)"

definition detect_one :: "store \<Rightarrow> issue \<Rightarrow> collision_detail list" where
  "detect_one s i =
     (case find (\<lambda>x. ID x = ID i) (issues s) of
        None \<Rightarrow> []
      | Some e \<Rightarrow>
          if same_content i e then []
          else [\<lparr>CollisionID = ID i, IncomingIssue = i, ExistingIssue = e, Score = 0\<rparr>])"

definition DetectCollisions :: "store \<Rightarrow> issue list \<Rightarrow> error + collision_detail list" where
  "DetectCollisions s incoming =
     (if fails s CDetectCollisions then Inl (call_error CDetectCollisions)
      else Inr (concat (map (detect_one s) incoming)))"

text \<open>Modelled from the spec: scoring (section 4.4, step 2) records the similarity of
  the incoming and the existing entity in each collision.\<close>

definition ScoreCollisions ::
  "env \<Rightarrow> store \<Rightarrow> collision_detail list \<Rightarrow> issue list \<Rightarrow> error + collision_detail list" where
  "ScoreCollisions E s cs existing =
     (if fails s CScoreCollisions then Inl (call_error CScoreCollisions)
      else Inr (map (\<lambda>c. c\<lparr>Score := similarity E (IncomingIssue c) (ExistingIssue c)\<rparr>) cs))"

text \<open>Decimal numerals, and the ids \<^verbatim>\<open>prefix-N\<close> of section 3.\<close>

definition digit :: "nat \<Rightarrow> char" where
  "digit n = (case drop n ''0123456789'' of [] \<Rightarrow> CHR ''9'' | c # cs \<Rightarrow> c)"

fun itoa :: "nat \<Rightarrow> string" where
  "itoa n = (if n < 10 then [digit n] else itoa (n div 10) @ [digit (n mod 10)])"

declare itoa.simps [simp del]

definition id_prefix :: "string \<Rightarrow> string" where
  "id_prefix i = takeWhile (\<lambda>c. c \<noteq> CHR ''-'') i"

text \<open>Modelled from the spec: id allocation (I4 and section 4.4): the smallest positive
  integer whose id is not in use under the prefix.\<close>

definition fresh_id :: "string \<Rightarrow> string list \<Rightarrow> string" where
  "fresh_id p used =
     (case find (\<lambda>n. p @ ''-'' @ itoa n \<notin> set used) [1 ..< length used + 2] of
        Some n \<Rightarrow> p @ ''-'' @ itoa n
      | None \<Rightarrow> p @ ''-'' @ itoa (length used + 2))"

text \<open>Modelled from the spec: remapping (section 4.4, step 3): each collision's incoming
  entity is created under a fresh id of its prefix, and the mapping from the old id to
  the new one is recorded. The call is one transaction: when it fails the store is as
  before.\<close>

fun remap_all ::
  "time \<Rightarrow> collision_detail list \<Rightarrow> store \<times> (string \<times> string) list
     \<Rightarrow> error + store \<times> (string \<times> string) list" where
  "remap_all t [] sm = Inr sm"
| "remap_all t (c # cs) (s, m) =
     (let new = fresh_id (id_prefix (CollisionID c)) (map ID (issues s))
      in case CreateIssue t s ((IncomingIssue c)\<lparr>ID := new\<rparr>) of
           Inl e \<Rightarrow> Inl e
         | Inr s' \<Rightarrow> remap_all t cs (s', AList.update (CollisionID c) new m))"

definition RemapCollisions ::
  "env \<Rightarrow> store \<Rightarrow> collision_detail list \<Rightarrow> issue list
     \<Rightarrow> error + store \<times> (string \<times> string) list" where
  "RemapCollisions E s cs existing =
     (if fails s CRemapCollisions then Inl (call_error CRemapCollisions)
      else remap_all (now E) cs (s, []))"

subsection \<open>Files, standard error and the package-level variables\<close>

text \<open>
  \<open>jsonl\<close> is the content of the journal file at \<open>jsonlPath\<close> (\<open>None\<close>: there is no
  such file) and \<open>tmpfile\<close> the content of the temp file beside it. \<open>fs_failing\<close>
  lists the file operations that return an error; \<^verbatim>\<open>os.Remove\<close> of the temp file is
  taken to succeed. \<open>is_sqlite\<close> is the outcome of the type assertion
  \<^verbatim>\<open>store.(*sqlite.SQLiteStorage)\<close>, \<open>BD_DEBUG\<close> says that the environment variable
  is not empty.
\<close>

datatype fscall = FReadFile | FOpen | FCreate | FEncode string | FClose | FRename

record world =
  store :: store
  is_sqlite :: bool
  jsonlPath :: string
  jsonl :: "bytes option"
  tmpfile :: "bytes option"
  fs_failing :: "fscall list"
  stderr :: "string list"
  BD_DEBUG :: bool
  isDirty :: bool
  needsFullExport :: bool
  storeActive :: bool
  flushFailureCount :: nat
  lastFlushError :: "error option"

definition eprint :: "string \<Rightarrow> world \<Rightarrow> world" where
  "eprint m w = w\<lparr>stderr := stderr w @ [m]\<rparr>"

definition debug :: "string \<Rightarrow> world \<Rightarrow> world" where
  "debug m w = (if BD_DEBUG w then eprint m w else w)"

definition os_ReadFile :: "world \<Rightarrow> error + bytes" where
  "os_ReadFile w =
     (if FReadFile \<in> set (fs_failing w) then Inl ''read error''
      else (case jsonl w of None \<Rightarrow> Inl ''no such file or directory'' | Some d \<Rightarrow> Inr d))"

subsection \<open>Lines\<close>

text \<open>\<^verbatim>\<open>bytes.Split(data, []byte("\n"))\<close>: the pieces between newlines; the empty input
  has one empty piece.\<close>

fun bytes_Split_nl :: "bytes \<Rightarrow> bytes list" where
  "bytes_Split_nl [] = [[]]"
| "bytes_Split_nl (c # cs) =
     (if c = CHR 0x0A then [] # bytes_Split_nl cs
      else (case bytes_Split_nl cs of [] \<Rightarrow> [[c]] | l # ls \<Rightarrow> (c # l) # ls))"

definition HasPrefix :: "bytes \<Rightarrow> bytes \<Rightarrow> bool" where
  "HasPrefix s p = (length p \<le> length s \<and> take (length p) s = p)"

text \<open>
  A \<^verbatim>\<open>bufio.Scanner\<close> with the split function \<^verbatim>\<open>ScanLines\<close>: the lines are the pieces
  that end in a newline and a last piece without one when it is not empty, each without
  a trailing carriage return. A piece that does not fit the buffer of \<open>limit\<close> bytes
  together with its newline stops the scan with \<^verbatim>\<open>ErrTooLong\<close>: \<open>Scan\<close> returns false
  from there on. The result is the lines delivered and whether the scan ended in that
  error.
\<close>

definition scan_pieces :: "bytes \<Rightarrow> bytes list" where
  "scan_pieces data =
     (let ps = bytes_Split_nl data in if last ps = [] then butlast ps else ps)"

definition dropCR :: "bytes \<Rightarrow> bytes" where
  "dropCR l = (if l \<noteq> [] \<and> last l = CHR 0x0D then butlast l else l)"

definition Scanner_lines :: "nat \<Rightarrow> bytes \<Rightarrow> string list \<times> bool" where
  "Scanner_lines limit data =
     (let ps = scan_pieces data; ok = takeWhile (\<lambda>l. length l < limit) ps
      in (map dropCR ok, length ok < length ps))"

definition MaxScanTokenSize :: nat where
  "MaxScanTokenSize = 64 * 1024"

subsection \<open>Auto-import\<close>

text \<open>\<^verbatim>\<open>validateJSONLHash\<close>: the path, the data, the hash and whether to import.\<close>

definition validateJSONLHash :: "env \<Rightarrow> world \<Rightarrow> (string \<times> bytes \<times> string \<times> bool) \<times> world" where
  "validateJSONLHash E w =
     (case os_ReadFile w of
        Inl err \<Rightarrow>
          (([], [], [], False), debug (''Debug: auto-import skipped, JSONL not found: '' @ err) w)
      | Inr data \<Rightarrow>
          (let hash = sha256_hex E data;
               (lastHash, w1) =
                 (case GetMetadata (store w) ''last_import_hash'' of
                    Inl err \<Rightarrow>
                      ([], debug (''Debug: metadata read failed ('' @ err @
                                  ''), treating as first import'') w)
                  | Inr h \<Rightarrow> (h, w))
           in if hash = lastHash
              then (([], [], [], False),
                    debug ''Debug: auto-import skipped, JSONL unchanged (hash match)'' w1)
              else ((jsonlPath w, data, hash, True),
                    debug ''Debug: auto-import triggered (hash changed)'' w1)))"

text \<open>\<^verbatim>\<open>checkMergeConflicts\<close>: the test on one trimmed line, and the scan that reports
  the first line that passes it. (Here and below a message is one entry of \<open>stderr\<close>,
  without its blank lines and without the signs outside ASCII that the program prints
  before some of them.)\<close>

definition is_conflict_marker :: "env \<Rightarrow> bytes \<Rightarrow> bool" where
  "is_conflict_marker E line =
     (let trimmed = bytes_TrimSpace E line
      in HasPrefix trimmed ''<<<<<<< '' \<or> trimmed = ''======='' \<or> HasPrefix trimmed ''>>>>>>> '')"

definition conflict_report :: "string \<Rightarrow> string list" where
  "conflict_report path =
     [''Git merge conflict detected in '' @ path,
      ''The JSONL file contains unresolved merge conflict markers.'',
      ''This prevents auto-import from loading your issues.'',
      ''To resolve:'',
      ''  1. Resolve the merge conflict in your Git client, OR'',
      ''  2. Export from database to regenerate clean JSONL:'',
      ''     bd export -o '' @ path,
      ''After resolving, commit the fixed JSONL file.'']"

definition checkMergeConflicts :: "env \<Rightarrow> string \<Rightarrow> bytes \<Rightarrow> world \<Rightarrow> bool \<times> world" where
  "checkMergeConflicts E path data w =
     (if list_ex (is_conflict_marker E) (bytes_Split_nl data)
      then (True, w\<lparr>stderr := stderr w @ conflict_report path\<rparr>)
      else (False, w))"

text \<open>\<^verbatim>\<open>parseJSONLIssues\<close>: the scanner has a buffer of 2 MiB; empty lines are passed
  over; the first line that does not parse ends the function with an error that names
  its number and at most 80 bytes of it; an error of the scanner is returned after the
  loop.\<close>

definition snippet :: "string \<Rightarrow> string" where
  "snippet line = (if length line > 80 then take 80 line @ ''...'' else line)"

fun parse_lines :: "env \<Rightarrow> nat \<Rightarrow> string list \<Rightarrow> error + issue list" where
  "parse_lines E lineNo [] = Inr []"
| "parse_lines E lineNo (line # rest) =
     (if line = [] then parse_lines E (Suc lineNo) rest
      else (case json_Unmarshal E line of
              Inl err \<Rightarrow>
                Inl (''parse error at line '' @ itoa (Suc lineNo) @ '': '' @ err @
                     [CHR 0x0A] @ ''Snippet: '' @ snippet line)
            | Inr issue \<Rightarrow>
                (case parse_lines E (Suc lineNo) rest of
                   Inl e \<Rightarrow> Inl e
                 | Inr parsed \<Rightarrow> Inr (issue # parsed))))"

definition parseJSONLIssues :: "env \<Rightarrow> bytes \<Rightarrow> error + issue list" where
  "parseJSONLIssues E jsonlData =
     (case Scanner_lines (2 * 1024 * 1024) jsonlData of
        (lines, too_long) \<Rightarrow>
          (case parse_lines E 0 lines of
             Inl e \<Rightarrow> Inl e
           | Inr allIssues \<Rightarrow>
               if too_long then Inl ''scanner error: bufio.Scanner: token too long''
               else Inr allIssues))"

text \<open>\<^verbatim>\<open>showCollisionRemapping\<close>: at most ten lines, then the tally of the rest (the
  arrow is written in ASCII here; Go ranges over the map in no fixed order).\<close>

definition collision_title :: "collision_detail list \<Rightarrow> string \<Rightarrow> string" where
  "collision_title collisions oldID =
     (case find (\<lambda>c. CollisionID c = oldID) collisions of
        None \<Rightarrow> [] | Some c \<Rightarrow> Title (IncomingIssue c))"

definition showCollisionRemapping ::
  "(string \<times> string) list \<Rightarrow> collision_detail list \<Rightarrow> world \<Rightarrow> world" where
  "showCollisionRemapping idMapping collisions w =
     (let numRemapped = length idMapping;
          maxShow = (if numRemapped < 10 then numRemapped else 10)
      in w\<lparr>stderr := stderr w
            @ [''Auto-import: remapped '' @ itoa numRemapped @ '' colliding issue(s) to new IDs:'']
            @ map (\<lambda>(oldID, newID).
                     ''  '' @ oldID @ '' -> '' @ newID @ '' ('' @ collision_title collisions oldID @ '')'')
                  (take maxShow idMapping)
            @ (if numRemapped > maxShow
               then [''  ... and '' @ itoa (numRemapped - maxShow) @ '' more''] else [])
            @ [[]]\<rparr>)"

text \<open>\<^verbatim>\<open>filterCollidingIssues\<close>.\<close>

definition filterCollidingIssues :: "issue list \<Rightarrow> collision_detail list \<Rightarrow> issue list" where
  "filterCollidingIssues allIssues collisions =
     filter (\<lambda>issue. ID issue \<notin> set (map CollisionID collisions)) allIssues"

text \<open>\<^verbatim>\<open>handleCollisions\<close>: every collision that was detected is scored, handed to
  \<^verbatim>\<open>RemapCollisions\<close> and taken out of the list; there is no test of the score.\<close>

definition handleCollisions :: "env \<Rightarrow> issue list \<Rightarrow> world \<Rightarrow> (error + issue list) \<times> world" where
  "handleCollisions E allIssues w =
     (case DetectCollisions (store w) allIssues of
        Inl err \<Rightarrow> (Inl (''collision detection error: '' @ err), w)
      | Inr collisions \<Rightarrow>
          if collisions = [] then (Inr allIssues, w)
          else
            (case SearchIssues (store w) of
               Inl err \<Rightarrow> (Inl (''error getting existing issues: '' @ err), w)
             | Inr allExistingIssues \<Rightarrow>
                 (case ScoreCollisions E (store w) collisions allExistingIssues of
                    Inl err \<Rightarrow> (Inl (''error scoring collisions: '' @ err), w)
                  | Inr scored \<Rightarrow>
                      (case RemapCollisions E (store w) scored allExistingIssues of
                         Inl err \<Rightarrow> (Inl (''error remapping collisions: '' @ err), w)
                       | Inr (s', idMapping) \<Rightarrow>
                           (Inr (filterCollidingIssues allIssues scored),
                            showCollisionRemapping idMapping scored (w\<lparr>store := s'\<rparr>))))))"

text \<open>\<^verbatim>\<open>buildIssueUpdates\<close>: the update map, with the closure time chosen from the
  incoming closure time, the incoming update time, the clock, in that order.\<close>

definition buildIssueUpdates :: "env \<Rightarrow> issue \<Rightarrow> updates" where
  "buildIssueUpdates E issue =
     [(''title'', VString (Title issue)),
      (''description'', VString (Description issue)),
      (''design'', VString (Design issue)),
      (''acceptance_criteria'', VString (AcceptanceCriteria issue)),
      (''notes'', VString (Notes issue)),
      (''status'', VString (Status issue)),
      (''priority'', VInt (Priority issue)),
      (''issue_type'', VString (IssueType issue)),
      (''assignee'', VString (Assignee issue))]
     @ (case EstimatedMinutes issue of None \<Rightarrow> [] | Some m \<Rightarrow> [(''estimated_minutes'', VInt m)])
     @ (case ExternalRef issue of None \<Rightarrow> [] | Some r \<Rightarrow> [(''external_ref'', VString r)])
     @ [(''closed_at'',
         (if Status issue = ''closed'' then
            (case ClosedAt issue of
               Some c \<Rightarrow> VTime c
             | None \<Rightarrow> if \<not> IsZero (UpdatedAt issue) then VTime (UpdatedAt issue)
                       else VTime (now E))
          else VNil))]"

text \<open>\<^verbatim>\<open>enforceClosedAtInvariant\<close>: a closed issue without a closure time takes the
  clock's time; an issue that is not closed loses its closure time.\<close>

definition enforceClosedAtInvariant :: "env \<Rightarrow> issue \<Rightarrow> issue" where
  "enforceClosedAtInvariant E issue =
     (if Status issue = ''closed'' then
        (case ClosedAt issue of
           None \<Rightarrow> issue\<lparr>ClosedAt := Some (now E)\<rparr>
         | Some c \<Rightarrow> issue)
      else issue\<lparr>ClosedAt := None\<rparr>)"

text \<open>\<^verbatim>\<open>importIssuesFromJSONL\<close>: one batch fetch, whose error is returned; then one
  update or one create for each issue, whose error is discarded (\<^verbatim>\<open>_ = store...\<close>).
  The map \<^verbatim>\<open>existingByID\<close> is built once, before the loop.\<close>

definition import_one :: "env \<Rightarrow> (string \<rightharpoonup> issue) \<Rightarrow> issue \<Rightarrow> world \<Rightarrow> world" where
  "import_one E existingByID issue w =
     (case existingByID (ID issue) of
        Some existing \<Rightarrow>
          (case UpdateIssue (now E) (store w) (ID issue) (buildIssueUpdates E issue) of
             Inl err \<Rightarrow> w
           | Inr s \<Rightarrow> w\<lparr>store := s\<rparr>)
      | None \<Rightarrow>
          (case CreateIssue (now E) (store w) (enforceClosedAtInvariant E issue) of
             Inl err \<Rightarrow> w
           | Inr s \<Rightarrow> w\<lparr>store := s\<rparr>))"

definition importIssuesFromJSONL :: "env \<Rightarrow> issue list \<Rightarrow> world \<Rightarrow> error option \<times> world" where
  "importIssuesFromJSONL E allIssues w =
     (case SearchIssues (store w) of
        Inl err \<Rightarrow> (Some (''error fetching existing issues: '' @ err), w)
      | Inr allExistingIssues \<Rightarrow>
          (let existingByID = map_of (rev (map (\<lambda>i. (ID i, i)) allExistingIssues))
           in (None, fold (import_one E existingByID) allIssues w)))"

text \<open>\<^verbatim>\<open>importDependenciesFromJSONL\<close>: it returns nothing; an issue whose dependency
  records cannot be read is passed over, and the error of an insertion is discarded.\<close>

definition import_dep :: "dependency list \<Rightarrow> dependency \<Rightarrow> world \<Rightarrow> world" where
  "import_dep existingDeps dep w =
     (if list_ex (\<lambda>existing. DependsOnID existing = DependsOnID dep \<and> DepType existing = DepType dep)
           existingDeps
      then w
      else (case AddDependency (store w) dep of Inl err \<Rightarrow> w | Inr s \<Rightarrow> w\<lparr>store := s\<rparr>))"

definition import_deps_of :: "issue \<Rightarrow> world \<Rightarrow> world" where
  "import_deps_of issue w =
     (if Dependencies issue = [] then w
      else (case GetDependencyRecords (store w) (ID issue) of
              Inl err \<Rightarrow> w
            | Inr existingDeps \<Rightarrow> fold (import_dep existingDeps) (Dependencies issue) w))"

definition importDependenciesFromJSONL :: "issue list \<Rightarrow> world \<Rightarrow> world" where
  "importDependenciesFromJSONL allIssues w = fold import_deps_of allIssues w"

text \<open>\<^verbatim>\<open>autoImportIfNewer\<close>.\<close>

definition autoImportIfNewer :: "env \<Rightarrow> world \<Rightarrow> world" where
  "autoImportIfNewer E w =
     (case validateJSONLHash E w of
        ((path, jsonlData, currentHash, shouldImport), w1) \<Rightarrow>
          if \<not> shouldImport then w1
          else
            (case checkMergeConflicts E path jsonlData w1 of
               (True, w2) \<Rightarrow> w2
             | (False, w2) \<Rightarrow>
                 (case parseJSONLIssues E jsonlData of
                    Inl err \<Rightarrow> eprint (''Auto-import skipped: '' @ err) w2
                  | Inr allIssues \<Rightarrow>
                      if \<not> is_sqlite w2 then
                        eprint (''To import manually, run: bd import -i '' @ path)
                          (eprint ''Auto-import disabled for non-SQLite backend (no collision detection).'' w2)
                      else
                        (case handleCollisions E allIssues w2 of
                           (Inl err, w3) \<Rightarrow> eprint (''Auto-import failed: '' @ err) w3
                         | (Inr filtered, w3) \<Rightarrow>
                             (case importIssuesFromJSONL E filtered w3 of
                                (Some err, w4) \<Rightarrow> eprint (''Auto-import failed: '' @ err) w4
                              | (None, w4) \<Rightarrow>
                                  (let w5 = importDependenciesFromJSONL filtered w4
                                   in case SetMetadata (store w5) ''last_import_hash'' currentHash of
                                        Inl err \<Rightarrow>
                                          eprint ''This may cause auto-import to retry the same import on next operation.''
                                            (eprint (''Warning: failed to update last_import_hash after import: '' @ err) w5)
                                      | Inr s \<Rightarrow> w5\<lparr>store := s\<rparr>))))))"

subsection \<open>Auto-flush\<close>

text \<open>\<^verbatim>\<open>recordFlushFailure\<close> and \<^verbatim>\<open>recordFlushSuccess\<close>.\<close>

definition recordFlushFailure :: "error \<Rightarrow> world \<Rightarrow> world" where
  "recordFlushFailure err w =
     (let failCount = Suc (flushFailureCount w);
          w1 = eprint (''Warning: auto-flush failed: '' @ err)
                 (w\<lparr>flushFailureCount := failCount, lastFlushError := Some err\<rparr>)
      in if failCount \<ge> 3 then
           eprint ''Run 'bd export -o .beads/issues.jsonl' manually to fix.''
             (eprint ''Your JSONL file may be out of sync with the database.''
                (eprint (''CRITICAL: Auto-flush has failed '' @ itoa failCount @ '' times consecutively!'') w1))
         else w1)"

definition recordFlushSuccess :: "world \<Rightarrow> world" where
  "recordFlushSuccess w = w\<lparr>flushFailureCount := 0, lastFlushError := None\<rparr>"

text \<open>\<^verbatim>\<open>readExistingJSONL\<close>: the journal as a map from id to issue, here an association
  list with one entry for each key. A journal that cannot be opened gives the empty
  map. The scanner has its default buffer and its error is not looked at; a line that
  does not parse is warned about and passed over.\<close>

fun read_lines ::
  "env \<Rightarrow> nat \<Rightarrow> string list \<Rightarrow> (string \<times> issue) list \<times> world \<Rightarrow> (string \<times> issue) list \<times> world" where
  "read_lines E lineNum [] mw = mw"
| "read_lines E lineNum (line # rest) (issueMap, w) =
     (if line = [] then read_lines E (Suc lineNum) rest (issueMap, w)
      else (case json_Unmarshal E line of
              Inr issue \<Rightarrow>
                read_lines E (Suc lineNum) rest (AList.update (ID issue) issue issueMap, w)
            | Inl err \<Rightarrow>
                read_lines E (Suc lineNum) rest
                  (issueMap,
                   eprint (''Warning: skipping malformed JSONL line '' @ itoa (Suc lineNum) @ '': '' @ err) w)))"

definition os_Open :: "world \<Rightarrow> error + bytes" where
  "os_Open w =
     (if FOpen \<in> set (fs_failing w) then Inl ''open error''
      else (case jsonl w of None \<Rightarrow> Inl ''no such file or directory'' | Some d \<Rightarrow> Inr d))"

definition readExistingJSONL :: "env \<Rightarrow> world \<Rightarrow> (string \<times> issue) list \<times> world" where
  "readExistingJSONL E w =
     (case os_Open w of
        Inl err \<Rightarrow> ([], w)
      | Inr data \<Rightarrow> read_lines E 0 (fst (Scanner_lines MaxScanTokenSize data)) ([], w))"

text \<open>\<^verbatim>\<open>fetchAndUpdateDirtyIssues\<close>: an id that the store no longer has is deleted from
  the map, any other entry is replaced by the stored issue with its dependency records.\<close>

fun fetchAndUpdateDirtyIssues ::
  "store \<Rightarrow> string list \<Rightarrow> (string \<times> issue) list \<Rightarrow> error + (string \<times> issue) list" where
  "fetchAndUpdateDirtyIssues s [] issueMap = Inr issueMap"
| "fetchAndUpdateDirtyIssues s (issueID # rest) issueMap =
     (case GetIssue s issueID of
        Inl err \<Rightarrow> Inl (''failed to get issue '' @ issueID @ '': '' @ err)
      | Inr None \<Rightarrow> fetchAndUpdateDirtyIssues s rest (AList.delete issueID issueMap)
      | Inr (Some issue) \<Rightarrow>
          (case GetDependencyRecords s issueID of
             Inl err \<Rightarrow> Inl (''failed to get dependencies for '' @ issueID @ '': '' @ err)
           | Inr ds \<Rightarrow>
               fetchAndUpdateDirtyIssues s rest
                 (AList.update issueID (issue\<lparr>Dependencies := ds\<rparr>) issueMap)))"

text \<open>\<^verbatim>\<open>writeJSONLAtomically\<close>: create the temp file, encode each issue on a line of its
  own, close, rename over the journal. After the creation every failure removes the
  temp file. \<open>encode_all\<close> is the loop of \<^verbatim>\<open>encoder.Encode\<close>: the bytes written
  when every issue is encoded, the error of the first issue that is not.\<close>

fun encode_all :: "env \<Rightarrow> fscall list \<Rightarrow> issue list \<Rightarrow> error + bytes" where
  "encode_all E F [] = Inr []"
| "encode_all E F (issue # rest) =
     (if FEncode (ID issue) \<in> set F
      then Inl (''failed to encode issue '' @ ID issue @ '': write error'')
      else (case encode_all E F rest of
              Inl err \<Rightarrow> Inl err
            | Inr written \<Rightarrow> Inr (json_Marshal E issue @ [CHR 0x0A] @ written)))"

definition writeJSONLAtomically :: "env \<Rightarrow> issue list \<Rightarrow> world \<Rightarrow> error option \<times> world" where
  "writeJSONLAtomically E issueList w =
     (if FCreate \<in> set (fs_failing w) then (Some ''failed to create temp file: create error'', w)
      else
        (case encode_all E (fs_failing w) issueList of
           Inl err \<Rightarrow> (Some err, w\<lparr>tmpfile := None\<rparr>)
         | Inr written \<Rightarrow>
             if FClose \<in> set (fs_failing w)
             then (Some ''failed to close temp file: close error'', w\<lparr>tmpfile := None\<rparr>)
             else if FRename \<in> set (fs_failing w)
             then (Some ''failed to rename file: rename error'', w\<lparr>tmpfile := None\<rparr>)
             else (None, w\<lparr>jsonl := Some written, tmpfile := None\<rparr>)))"

text \<open>The end of \<^verbatim>\<open>flushToJSONL\<close>, after the journal is written: clear the dirty ids
  that were read at the start, store the hash of the journal that is now on disk,
  record the success. A failure to clear or to store the hash is warned about and does
  not fail the flush; a journal that cannot be read back leaves the hash as it was.\<close>

definition flush_commit :: "env \<Rightarrow> string list \<Rightarrow> world \<Rightarrow> world" where
  "flush_commit E dirtyIDs w =
     (let w1 =
            (case ClearDirtyIssuesByID (store w) dirtyIDs of
               Inl err \<Rightarrow> eprint (''Warning: failed to clear dirty issues: '' @ err) w
             | Inr s \<Rightarrow> w\<lparr>store := s\<rparr>);
          w2 =
            (case os_ReadFile w1 of
               Inl err \<Rightarrow> w1
             | Inr jsonlData \<Rightarrow>
                 (case SetMetadata (store w1) ''last_import_hash'' (sha256_hex E jsonlData) of
                    Inl err \<Rightarrow>
                      eprint (''Warning: failed to update last_import_hash after export: '' @ err) w1
                  | Inr s \<Rightarrow> w1\<lparr>store := s\<rparr>))
      in recordFlushSuccess w2)"

text \<open>\<^verbatim>\<open>flushToJSONL\<close>. The flush can run beside the command thread and beside other
  processes on the same database: \<open>concurrent\<close> is what they do to the store between
  the read of the dirty ids and the rest of the flush (the identity when nothing runs
  beside it). Go ranges over the map in no fixed order and \<^verbatim>\<open>sort.Slice\<close> is not
  stable; the values of the map have different ids (\<open>flush_issues_ascending\<close> below),
  so the sorted slice is the one that any sort by id gives, here \<open>sort_key ID\<close>.\<close>

definition flushToJSONL :: "env \<Rightarrow> (store \<Rightarrow> store) \<Rightarrow> world \<Rightarrow> world" where
  "flushToJSONL E concurrent w =
     (if \<not> storeActive w then w
      else if \<not> isDirty w then w
      else
        (let w1 = w\<lparr>isDirty := False, needsFullExport := False\<rparr>
         in if \<not> storeActive w1 then w1
            else
              (case GetDirtyIssues (store w1) of
                 Inl err \<Rightarrow> recordFlushFailure (''failed to get dirty issues: '' @ err) w1
               | Inr dirtyIDs \<Rightarrow>
                   if dirtyIDs = [] then recordFlushSuccess w1
                   else
                     (case readExistingJSONL E (w1\<lparr>store := concurrent (store w1)\<rparr>) of
                        (issueMap, w2) \<Rightarrow>
                          (case fetchAndUpdateDirtyIssues (store w2) dirtyIDs issueMap of
                             Inl err \<Rightarrow> recordFlushFailure err w2
                           | Inr issueMap' \<Rightarrow>
                               (case writeJSONLAtomically E (sort_key ID (map snd issueMap')) w2 of
                                  (Some err, w3) \<Rightarrow> recordFlushFailure err w3
                                | (None, w3) \<Rightarrow> flush_commit E dirtyIDs w3))))))"

subsection \<open>Vocabulary of the properties\<close>

text \<open>\<open>same_but_stderr w w'\<close>: the world \<open>w'\<close> is \<open>w\<close> apart from what was printed to
  standard error: the store with its metadata and its dirty set, the journal, the temp
  file and the flush state are the same.\<close>

definition same_but_stderr :: "world \<Rightarrow> world \<Rightarrow> bool" where
  "same_but_stderr w w' = (w'\<lparr>stderr := stderr w\<rparr> = w)"

text \<open>The bytes of a journal that lists \<open>xs\<close>: one line for each issue, each ended by a
  newline. A list is ascending by id when its ids are sorted and no id occurs twice.\<close>

definition serialize :: "env \<Rightarrow> issue list \<Rightarrow> bytes" where
  "serialize E xs = concat (map (\<lambda>i. json_Marshal E i @ [CHR 0x0A]) xs)"

definition ascending_ids :: "issue list \<Rightarrow> bool" where
  "ascending_ids xs = (sorted (map ID xs) \<and> distinct (map ID xs))"

text \<open>The issues that the lines of a journal parse to, the map from id to issue that
  they make (a later line replaces an earlier one of the same id), and the warnings for
  the lines that do not parse.\<close>

definition parsed_issues :: "env \<Rightarrow> string list \<Rightarrow> issue list" where
  "parsed_issues E lines =
     List.map_filter
       (\<lambda>l. case json_Unmarshal E l of Inl err \<Rightarrow> None | Inr i \<Rightarrow> Some i)
       (filter (\<lambda>l. l \<noteq> []) lines)"

definition journal_map :: "issue list \<Rightarrow> (string \<times> issue) list" where
  "journal_map xs = fold (\<lambda>i m. AList.update (ID i) i m) xs []"

fun malformed_warnings :: "env \<Rightarrow> nat \<Rightarrow> string list \<Rightarrow> string list" where
  "malformed_warnings E lineNum [] = []"
| "malformed_warnings E lineNum (line # rest) =
     (if line = [] then []
      else (case json_Unmarshal E line of
              Inr i \<Rightarrow> []
            | Inl err \<Rightarrow>
                [''Warning: skipping malformed JSONL line '' @ itoa (Suc lineNum) @ '': '' @ err]))
     @ malformed_warnings E (Suc lineNum) rest"

text \<open>The issues that a flush of \<open>w\<close> hands to \<^verbatim>\<open>writeJSONLAtomically\<close>: the journal's
  map, refreshed for the dirty ids and sorted; the error of the refresh when it fails.\<close>

definition flush_issues :: "env \<Rightarrow> (store \<Rightarrow> store) \<Rightarrow> world \<Rightarrow> error + issue list" where
  "flush_issues E concurrent w =
     (case fetchAndUpdateDirtyIssues (concurrent (store w)) (dirty (store w))
             (fst (readExistingJSONL E w)) of
        Inl err \<Rightarrow> Inl err
      | Inr issueMap \<Rightarrow> Inr (sort_key ID (map snd issueMap)))"

text \<open>\<open>same_config s s'\<close>: the store \<open>s'\<close> has the metadata of \<open>s\<close> and fails the
  same calls; its issues, dependencies and dirty set may differ.\<close>

definition same_config :: "store \<Rightarrow> store \<Rightarrow> bool" where
  "same_config s s' = (failing s' = failing s \<and> metadata s' = metadata s)"

text \<open>The end of \<^verbatim>\<open>autoImportIfNewer\<close>, once the existing issues are fetched: the
  upserts, the dependencies, and \<^verbatim>\<open>SetMetadata\<close> of the new hash.\<close>

definition import_tail :: "env \<Rightarrow> string \<Rightarrow> issue list \<Rightarrow> world \<Rightarrow> world" where
  "import_tail E h filtered w3 =
     (let w5 = importDependenciesFromJSONL filtered (snd (importIssuesFromJSONL E filtered w3))
      in case SetMetadata (store w5) ''last_import_hash'' h of
                                        Inl err \<Rightarrow>
                                          eprint ''This may cause auto-import to retry the same import on next operation.''
                                            (eprint (''Warning: failed to update last_import_hash after import: '' @ err) w5)
                                      | Inr s \<Rightarrow> w5\<lparr>store := s\<rparr>)"

text \<open>The invariant of the map from id to issue in a flush: one entry for each key, and
  each entry under the id of its issue.\<close>

definition keyed :: "(string \<times> issue) list \<Rightarrow> bool" where
  "keyed m = (distinct (map fst m) \<and> (\<forall>e \<in> set m. ID (snd e) = fst e))"

subsection \<open>Instances for the examples\<close>

text \<open>
  A small environment on which the functions can be run: a stand-in digest of 64
  characters, a line format \<^verbatim>\<open>{id}\<close> or \<^verbatim>\<open>{id:title}\<close> in place of JSON, the trimming
  of ASCII white space, the clock at 9, and a similarity that is 1 for issues of the same
  type and priority, with the threshold 1.
\<close>

definition pad_digest :: "bytes \<Rightarrow> string" where
  "pad_digest d = take 64 (d @ replicate 64 CHR ''0'')"

definition blank_issue :: issue where
  "blank_issue =
     \<lparr>ID = [], Title = [], Description = [], Design = [], AcceptanceCriteria = [], Notes = [],
      Status = ''open'', Priority = 2, IssueType = ''task'', Assignee = [],
      EstimatedMinutes = None, ExternalRef = None, CreatedAt = 1, UpdatedAt = 1,
      ClosedAt = None, Dependencies = []\<rparr>"

definition line_Unmarshal :: "string \<Rightarrow> error + issue" where
  "line_Unmarshal l =
     (case l of
        [] \<Rightarrow> Inl ''unexpected end of JSON input''
      | c # r \<Rightarrow>
          if c = CHR ''{'' \<and> r \<noteq> [] \<and> last r = CHR ''}''
          then Inr (blank_issue\<lparr>ID := takeWhile (\<lambda>x. x \<noteq> CHR '':'') (butlast r),
                                Title := drop 1 (dropWhile (\<lambda>x. x \<noteq> CHR '':'') (butlast r))\<rparr>)
          else Inl ''invalid character'')"

definition line_Marshal :: "issue \<Rightarrow> bytes" where
  "line_Marshal i = ''{'' @ ID i @ (if Title i = [] then [] else '':'' @ Title i) @ ''}''"

definition ascii_space :: "char \<Rightarrow> bool" where
  "ascii_space c = (c \<in> set [CHR 0x09, CHR 0x0A, CHR 0x0B, CHR 0x0C, CHR 0x0D, CHR 0x20])"

definition ascii_TrimSpace :: "bytes \<Rightarrow> bytes" where
  "ascii_TrimSpace s = rev (dropWhile ascii_space (rev (dropWhile ascii_space s)))"

definition example_env :: env where
  "example_env =
     \<lparr>sha256_hex = pad_digest, json_Unmarshal = line_Unmarshal, json_Marshal = line_Marshal,
      bytes_TrimSpace = ascii_TrimSpace, now = 9,
      similarity = (\<lambda>a b. if IssueType a = IssueType b \<and> Priority a = Priority b then 1 else 0),
      threshold = 1\<rparr>"

definition empty_store :: store where
  "empty_store = \<lparr>issues = [], deps = [], dirty = [], metadata = [], failing = []\<rparr>"

definition example_world :: world where
  "example_world =
     \<lparr>store = empty_store, is_sqlite = True, jsonlPath = ''.beads/issues.jsonl'',
      jsonl = None, tmpfile = None, fs_failing = [], stderr = [], BD_DEBUG = False,
      isDirty = False, needsFullExport = False, storeActive = True,
      flushFailureCount = 0, lastFlushError = None\<rparr>"

text \<open>A closed issue that carries an update time and no closure time.\<close>

definition closed_without_closed_at :: issue where
  "closed_without_closed_at =
     blank_issue\<lparr>ID := ''bd-7'', Status := ''closed'', UpdatedAt := 5, ClosedAt := None\<rparr>"

text \<open>A journal of one line; a world whose stored hash is the hash of that journal, and
  one whose metadata cannot be read; a journal with a conflict marker.\<close>

definition journal_one :: bytes where
  "journal_one = ''{bd-1:alpha}'' @ [CHR 0x0A]"



definition journal_conflict :: bytes where
  "journal_conflict =
     ''{bd-1:alpha}'' @ [CHR 0x0A] @ ''<<<<<<< HEAD'' @ [CHR 0x0A] @ ''{bd-2:beta}'' @ [CHR 0x0A]"

definition world_conflict :: world where
  "world_conflict = example_world\<lparr>jsonl := Some journal_conflict\<rparr>"

text \<open>A store with two issues of which \<^verbatim>\<open>bd-2\<close> is dirty, beside a journal that holds
  \<^verbatim>\<open>bd-3\<close>, a line that does not parse and an older \<^verbatim>\<open>bd-1\<close>; the issues that a flush
  of it writes, and the journal they make.\<close>

definition stored_alpha :: issue where
  "stored_alpha = blank_issue\<lparr>ID := ''bd-1'', Title := ''alpha''\<rparr>"

definition stored_beta :: issue where
  "stored_beta = blank_issue\<lparr>ID := ''bd-2'', Title := ''beta''\<rparr>"

definition journal_corrupt :: bytes where
  "journal_corrupt =
     ''{bd-3:gamma}'' @ [CHR 0x0A] @ ''not json'' @ [CHR 0x0A] @ ''{bd-1:old}'' @ [CHR 0x0A]"

definition world_flush :: world where
  "world_flush =
     example_world\<lparr>jsonl := Some journal_corrupt, isDirty := True, flushFailureCount := 2,
       store := empty_store\<lparr>issues := [stored_beta, stored_alpha], dirty := [''bd-2'']\<rparr>\<rparr>"

definition flushed_example :: "issue list" where
  "flushed_example =
     [blank_issue\<lparr>ID := ''bd-1'', Title := ''old''\<rparr>, stored_beta,
      blank_issue\<lparr>ID := ''bd-3'', Title := ''gamma''\<rparr>]"

definition journal_flushed :: bytes where
  "journal_flushed =
     ''{bd-1:old}'' @ [CHR 0x0A] @ ''{bd-2:beta}'' @ [CHR 0x0A] @ ''{bd-3:gamma}'' @ [CHR 0x0A]"

text \<open>Variants of the flush example: the rename fails; the temp file, of which an old
  one is left, cannot be created; the command thread marks
  \<^verbatim>\<open>bd-1\<close> dirty while the flush runs; the store fails to clear dirty ids; the store
  fails to write the hash.\<close>

definition world_rename_fails :: world where
  "world_rename_fails = world_flush\<lparr>fs_failing := [FRename]\<rparr>"

definition world_create_tmp_fails :: world where
  "world_create_tmp_fails = world_flush\<lparr>fs_failing := [FCreate], tmpfile := Some ''stale''\<rparr>"

definition mark_alpha_dirty :: "store \<Rightarrow> store" where
  "mark_alpha_dirty s = s\<lparr>dirty := dirty s @ [''bd-1'']\<rparr>"

definition world_clear_fails :: world where
  "world_clear_fails =
     world_flush\<lparr>store := (store world_flush)\<lparr>failing := [CClearDirtyIssuesByID]\<rparr>\<rparr>"

definition world_hash_write_fails :: world where
  "world_hash_write_fails =
     world_flush\<lparr>store := (store world_flush)\<lparr>failing := [CSetMetadata ''last_import_hash'']\<rparr>\<rparr>"

text \<open>A world in which the dirty flag is set and no id is dirty, beside a journal that
  was never imported.\<close>

definition world_nothing_dirty :: world where
  "world_nothing_dirty =
     example_world\<lparr>jsonl := Some journal_one, isDirty := True, flushFailureCount := 2\<rparr>"

text \<open>Imports: a first import of the one-line journal; a journal that does not parse;
  stores that fail collision detection, the batch fetch, the creation of \<^verbatim>\<open>bd-1\<close>; and
  a store that holds \<^verbatim>\<open>bd-1\<close> beside a journal with another \<^verbatim>\<open>bd-1\<close> of the same type
  and priority.\<close>

definition imported_alpha :: issue where
  "imported_alpha = blank_issue\<lparr>ID := ''bd-1'', Title := ''alpha''\<rparr>"

definition world_first_import :: world where
  "world_first_import = example_world\<lparr>jsonl := Some journal_one\<rparr>"

definition world_unparsable :: world where
  "world_unparsable = example_world\<lparr>jsonl := Some (''not json'' @ [CHR 0x0A])\<rparr>"

definition world_detect_fails :: world where
  "world_detect_fails =
     example_world\<lparr>jsonl := Some journal_one,
       store := empty_store\<lparr>failing := [CDetectCollisions]\<rparr>\<rparr>"

definition world_search_fails :: world where
  "world_search_fails =
     example_world\<lparr>jsonl := Some journal_one,
       store := empty_store\<lparr>failing := [CSearchIssues]\<rparr>\<rparr>"

definition world_create_fails :: world where
  "world_create_fails =
     example_world\<lparr>jsonl := Some journal_one,
       store := empty_store\<lparr>failing := [CCreateIssue ''bd-1'']\<rparr>\<rparr>"

definition alpha_v2 :: issue where
  "alpha_v2 = blank_issue\<lparr>ID := ''bd-1'', Title := ''alpha v2''\<rparr>"

definition journal_v2 :: bytes where
  "journal_v2 = ''{bd-1:alpha v2}'' @ [CHR 0x0A]"

definition world_collision :: world where
  "world_collision =
     example_world\<lparr>jsonl := Some journal_v2,
       store := empty_store\<lparr>issues := [stored_alpha]\<rparr>\<rparr>"

section \<open>Properties\<close>

subsection \<open>Printing changes standard error only\<close>

lemma eprint_sel [simp]:
  "store (eprint m w) = store w" "jsonl (eprint m w) = jsonl w"
  "tmpfile (eprint m w) = tmpfile w" "stderr (eprint m w) = stderr w @ [m]"
  "is_sqlite (eprint m w) = is_sqlite w" "fs_failing (eprint m w) = fs_failing w"
  "BD_DEBUG (eprint m w) = BD_DEBUG w" "jsonlPath (eprint m w) = jsonlPath w"
  "flushFailureCount (eprint m w) = flushFailureCount w"
  "lastFlushError (eprint m w) = lastFlushError w"
  "isDirty (eprint m w) = isDirty w" "storeActive (eprint m w) = storeActive w"
  by (simp_all add: eprint_def)

lemma debug_sel [simp]:
  "store (debug m w) = store w" "jsonl (debug m w) = jsonl w"
  "tmpfile (debug m w) = tmpfile w" "is_sqlite (debug m w) = is_sqlite w"
  "fs_failing (debug m w) = fs_failing w" "BD_DEBUG (debug m w) = BD_DEBUG w"
  "jsonlPath (debug m w) = jsonlPath w"
  by (simp_all add: debug_def)

lemma same_but_stderr_refl [simp]: "same_but_stderr w w"
  by (simp add: same_but_stderr_def)

lemma same_but_stderr_eprint [simp]: "same_but_stderr w (eprint m w') = same_but_stderr w w'"
  by (simp add: same_but_stderr_def eprint_def)

lemma same_but_stderr_debug [simp]: "same_but_stderr w (debug m w') = same_but_stderr w w'"
  by (simp add: debug_def)

lemma same_but_stderr_upd [simp]:
  "same_but_stderr w (w'\<lparr>stderr := x\<rparr>) = same_but_stderr w w'"
  by (simp add: same_but_stderr_def)

lemma same_but_stderr_sel:
  assumes "same_but_stderr w w'"
  shows "store w' = store w" and "jsonl w' = jsonl w" and "tmpfile w' = tmpfile w"
    and "fs_failing w' = fs_failing w" and "is_sqlite w' = is_sqlite w"
    and "flushFailureCount w' = flushFailureCount w" and "isDirty w' = isDirty w"
proof -
  have e: "w'\<lparr>stderr := stderr w\<rparr> = w"
    using assms by (simp only: same_but_stderr_def)
  have "store (w'\<lparr>stderr := stderr w\<rparr>) = store w" using e by simp
  then show "store w' = store w" by simp
  have "jsonl (w'\<lparr>stderr := stderr w\<rparr>) = jsonl w" using e by simp
  then show "jsonl w' = jsonl w" by simp
  have "tmpfile (w'\<lparr>stderr := stderr w\<rparr>) = tmpfile w" using e by simp
  then show "tmpfile w' = tmpfile w" by simp
  have "fs_failing (w'\<lparr>stderr := stderr w\<rparr>) = fs_failing w" using e by simp
  then show "fs_failing w' = fs_failing w" by simp
  have "is_sqlite (w'\<lparr>stderr := stderr w\<rparr>) = is_sqlite w" using e by simp
  then show "is_sqlite w' = is_sqlite w" by simp
  have "flushFailureCount (w'\<lparr>stderr := stderr w\<rparr>) = flushFailureCount w" using e by simp
  then show "flushFailureCount w' = flushFailureCount w" by simp
  have "isDirty (w'\<lparr>stderr := stderr w\<rparr>) = isDirty w" using e by simp
  then show "isDirty w' = isDirty w" by simp
qed

subsection \<open>The hash gate and the conflict check\<close>

lemma validate_same: "same_but_stderr w (snd (validateJSONLHash E w))"
  by (simp add: validateJSONLHash_def Let_def split: sum.splits prod.splits)

lemma validate_True:
  "validateJSONLHash E w = ((p, d, h, True), w1)
    \<Longrightarrow> os_ReadFile w = Inr d \<and> p = jsonlPath w \<and> h = sha256_hex E d"
  by (auto simp add: validateJSONLHash_def Let_def split: sum.splits prod.splits if_splits)

text \<open>
  Claim C10. When the journal file does not exist or cannot be read, auto-import
  returns the world it was given, apart from one optional debug line on standard error:
  the store, its metadata (\<^verbatim>\<open>last_import_hash\<close> among them) and the flush state are
  untouched, and nothing else is printed. The function has no error result and the
  path holds no exit.
\<close>

theorem C10_missing_journal_is_no_op:
  assumes "jsonl w = None \<or> FReadFile \<in> set (fs_failing w)"
  shows "\<exists>err. autoImportIfNewer E w =
           w\<lparr>stderr := stderr w @
                (if BD_DEBUG w
                 then [''Debug: auto-import skipped, JSONL not found: '' @ err] else [])\<rparr>"
proof -
  from assms obtain err where r: "os_ReadFile w = Inl err"
    by (cases "FReadFile \<in> set (fs_failing w)") (auto simp: os_ReadFile_def)
  have "autoImportIfNewer E w
          = debug (''Debug: auto-import skipped, JSONL not found: '' @ err) w"
    by (simp add: autoImportIfNewer_def validateJSONLHash_def r)
  then show ?thesis by (auto simp: debug_def eprint_def)
qed

theorem C10_missing_journal_is_no_op_witness:
  "jsonl example_world = None \<and> autoImportIfNewer example_env example_world = example_world"
proof -
  have n: "jsonl example_world = None" by (simp add: example_world_def)
  have d: "\<not> BD_DEBUG example_world" by (simp add: example_world_def)
  from C10_missing_journal_is_no_op [of example_world example_env] n d
  show ?thesis by simp
qed



text \<open>
  Claim C3. When a line of the journal, trimmed, starts with \<^verbatim>\<open><<<<<<< \<close> or
  \<^verbatim>\<open>>>>>>>> \<close> or is \<^verbatim>\<open>=======\<close>, auto-import changes nothing but standard error: no
  entity is created or updated, no dependency is added and \<^verbatim>\<open>last_import_hash\<close>
  stays as it was.
\<close>

theorem C3_conflict_markers_abort:
  assumes "os_ReadFile w = Inr data"
    and "\<exists>line \<in> set (bytes_Split_nl data). is_conflict_marker E line"
  shows "same_but_stderr w (autoImportIfNewer E w)
       \<and> store (autoImportIfNewer E w) = store w"
proof -
  have c: "list_ex (is_conflict_marker E) (bytes_Split_nl data)"
    using assms(2) by (simp add: list_ex_iff)
  obtain p d h b w1 where v: "validateJSONLHash E w = ((p, d, h, b), w1)"
    by (metis prod.exhaust)
  have s: "same_but_stderr w w1" using validate_same [of w E] v by simp
  have "same_but_stderr w (autoImportIfNewer E w)"
  proof (cases b)
    case True
    then have "d = data" using validate_True [of E w p d h w1] v assms(1) by simp
    then show ?thesis
      using v True c s by (simp add: autoImportIfNewer_def checkMergeConflicts_def)
  next
    case False
    then show ?thesis using v s by (simp add: autoImportIfNewer_def)
  qed
  then show ?thesis using same_but_stderr_sel(1) by blast
qed

theorem C3_conflict_markers_abort_witness:
  "''<<<<<<< HEAD'' \<in> set (bytes_Split_nl journal_conflict)
   \<and> is_conflict_marker example_env ''<<<<<<< HEAD''
   \<and> store (autoImportIfNewer example_env world_conflict) = empty_store"
proof -
  have r: "os_ReadFile world_conflict = Inr journal_conflict"
    by (simp add: os_ReadFile_def world_conflict_def example_world_def)
  have i: "''<<<<<<< HEAD'' \<in> set (bytes_Split_nl journal_conflict)"
    by (simp add: journal_conflict_def)
  have m: "is_conflict_marker example_env ''<<<<<<< HEAD''"
    by (simp add: is_conflict_marker_def example_env_def ascii_TrimSpace_def ascii_space_def
        HasPrefix_def)
  have s: "store world_conflict = empty_store"
    by (simp add: world_conflict_def example_world_def)
  from i m have "\<exists>line \<in> set (bytes_Split_nl journal_conflict).
                   is_conflict_marker example_env line" by blast
  from C3_conflict_markers_abort [OF r this] s i m show ?thesis by simp
qed

subsection \<open>The closure time\<close>

text \<open>
  Claim C7. On the update path the closure time of a closed issue is the incoming
  closure time, else the incoming update time, else the clock's; on the create path
  \<^verbatim>\<open>enforceClosedAtInvariant\<close> goes from the incoming closure time straight to the
  clock. For a closed issue with update time 5 and no closure time, imported at time
  9, the update map carries 5 and the created issue 9.
\<close>

theorem C7_create_path_skips_updated_at:
  "map_of (buildIssueUpdates example_env closed_without_closed_at) ''closed_at''
     = Some (VTime 5)
   \<and> ClosedAt (enforceClosedAtInvariant example_env closed_without_closed_at) = Some 9"
  by (simp add: buildIssueUpdates_def enforceClosedAtInvariant_def closed_without_closed_at_def
      blank_issue_def example_env_def IsZero_def)

subsection \<open>The flush\<close>

lemma read_lines_eq:
  "read_lines E n ls (m, w) =
     (fold (\<lambda>i m. AList.update (ID i) i m) (parsed_issues E ls) m,
      w\<lparr>stderr := stderr w @ malformed_warnings E n ls\<rparr>)"
proof (induction ls arbitrary: n m w)
  case Nil
  then show ?case by (simp add: parsed_issues_def List.map_filter_simps)
next
  case (Cons l ls)
  show ?case
  proof (cases "l = []")
    case True
    then show ?thesis using Cons.IH [of "Suc n" m w]
      by (simp add: parsed_issues_def)
  next
    case False
    show ?thesis
    proof (cases "json_Unmarshal E l")
      case (Inl err)
      then show ?thesis using False Cons.IH [of "Suc n" m]
        by (simp add: parsed_issues_def List.map_filter_simps eprint_def)
    next
      case (Inr i)
      then show ?thesis using False Cons.IH [of "Suc n"]
        by (simp add: parsed_issues_def List.map_filter_simps)
    qed
  qed
qed

lemma readExistingJSONL_eq:
  "readExistingJSONL E w =
     (case os_Open w of
        Inl err \<Rightarrow> ([], w)
      | Inr data \<Rightarrow>
          (journal_map (parsed_issues E (fst (Scanner_lines MaxScanTokenSize data))),
           w\<lparr>stderr := stderr w @ malformed_warnings E 0 (fst (Scanner_lines MaxScanTokenSize data))\<rparr>))"
  by (simp add: readExistingJSONL_def read_lines_eq journal_map_def split: sum.splits)

lemma set_update_cases:
  "e \<in> set (AList.update k v m) \<Longrightarrow> e \<in> set m \<or> e = (k, v)"
  by (induction m) (auto split: if_splits)

lemma set_delete_subset: "e \<in> set (AList.delete k m) \<Longrightarrow> e \<in> set m"
  by (induction m) (auto split: if_splits)

lemma keyed_update:
  assumes "keyed m" and "ID v = k"
  shows "keyed (AList.update k v m)"
proof -
  have "distinct (map fst (AList.update k v m))"
    using assms(1) by (simp add: keyed_def AList.distinct_update)
  moreover have "ID (snd e) = fst e" if "e \<in> set (AList.update k v m)" for e
    using set_update_cases [OF that] assms by (auto simp: keyed_def)
  ultimately show ?thesis by (simp add: keyed_def)
qed

lemma keyed_delete:
  assumes "keyed m"
  shows "keyed (AList.delete k m)"
proof -
  have "distinct (map fst (AList.delete k m))"
    using assms by (simp add: keyed_def AList.distinct_delete)
  moreover have "ID (snd e) = fst e" if "e \<in> set (AList.delete k m)" for e
    using set_delete_subset [OF that] assms by (auto simp: keyed_def)
  ultimately show ?thesis by (simp add: keyed_def)
qed

lemma keyed_fold: "keyed m \<Longrightarrow> keyed (fold (\<lambda>i m. AList.update (ID i) i m) xs m)"
  by (induction xs arbitrary: m) (simp_all add: keyed_update)

lemma keyed_Nil: "keyed []"
  by (simp add: keyed_def)

lemma keyed_journal_map: "keyed (journal_map xs)"
  unfolding journal_map_def by (rule keyed_fold [OF keyed_Nil])

lemma find_ID: "find (\<lambda>x. ID x = i) xs = Some y \<Longrightarrow> ID y = i"
  by (induction xs) (auto split: if_splits)

lemma keyed_fetch:
  "keyed m \<Longrightarrow> fetchAndUpdateDirtyIssues s ids m = Inr m' \<Longrightarrow> keyed m'"
proof (induction ids arbitrary: m)
  case Nil then show ?case by simp
next
  case (Cons i ids)
  show ?case
  proof (cases "GetIssue s i")
    case (Inl e) then show ?thesis using Cons.prems by simp
  next
    case (Inr r)
    show ?thesis
    proof (cases r)
      case None
      then show ?thesis using Inr Cons.prems Cons.IH [of "AList.delete i m"]
        by (simp add: keyed_delete)
    next
      case (Some x)
      then have x: "ID x = i" using Inr find_ID [of i "issues s" x]
        by (simp add: GetIssue_def split: if_splits)
      show ?thesis
      proof (cases "GetDependencyRecords s i")
        case (Inl e) then show ?thesis using Cons.prems Inr Some by simp
      next
        case ds: (Inr ds)
        have "keyed (AList.update i (x\<lparr>Dependencies := ds\<rparr>) m)"
          using Cons.prems(1) x by (simp add: keyed_update)
        then show ?thesis using Cons.prems Inr Some ds Cons.IH by simp
      qed
    qed
  qed
qed

lemma keyed_ids: "keyed m \<Longrightarrow> map ID (map snd m) = map fst m"
  by (induction m) (auto simp: keyed_def)

lemma distinct_map_sort_key:
  "distinct (map f xs) \<Longrightarrow> distinct (map f (sort_key f xs))"
  by (simp add: distinct_map)

lemma ascending_sort_key: "keyed m \<Longrightarrow> ascending_ids (sort_key ID (map snd m))"
proof -
  assume k: "keyed m"
  let ?xs = "map snd m"
  have d: "distinct (map ID ?xs)" using k keyed_ids [OF k] by (simp only: keyed_def)
  then have "distinct (map ID (sort_key ID ?xs))"
    by (rule distinct_map_sort_key)
  then show ?thesis by (simp add: ascending_ids_def)
qed

lemma keyed_readExisting: "keyed (fst (readExistingJSONL E w))"
  by (simp add: readExistingJSONL_eq keyed_journal_map keyed_Nil split: sum.splits)

lemma flush_issues_ascending: "flush_issues E c w = Inr xs \<Longrightarrow> ascending_ids xs"
  using keyed_fetch [OF keyed_readExisting] ascending_sort_key
  by (auto simp: flush_issues_def split: sum.splits)

lemma ascending_unique:
  assumes "ascending_ids xs" and "ascending_ids ys" and "set xs = set ys"
  shows "xs = ys"
proof -
  have dx: "distinct xs" and dy: "distinct ys"
    using assms(1,2) by (auto simp: ascending_ids_def distinct_map)
  have m: "mset xs = mset ys"
    using dx dy assms(3) by (simp add: set_eq_iff_mset_eq_distinct)
  have i: "inj_on ID (set xs)"
    using assms(1) by (simp add: ascending_ids_def distinct_map)
  have "sort_key ID xs = ys"
    using sort_key_inj_key_eq [OF m i] assms(2) by (simp add: ascending_ids_def)
  moreover have "sort_key ID xs = xs"
    using assms(1) by (simp add: ascending_ids_def sort_key_id_if_sorted)
  ultimately show ?thesis by simp
qed


lemma readExisting_same: "same_but_stderr w (snd (readExistingJSONL E w))"
  by (simp add: readExistingJSONL_eq split: sum.splits)

lemma readExisting_fst_cong:
  "jsonl w' = jsonl w \<Longrightarrow> fs_failing w' = fs_failing w
    \<Longrightarrow> fst (readExistingJSONL E w') = fst (readExistingJSONL E w)"
  by (simp add: readExistingJSONL_eq os_Open_def split: sum.splits)

lemma record_sel [simp]:
  "store (recordFlushFailure e w) = store w" "jsonl (recordFlushFailure e w) = jsonl w"
  "tmpfile (recordFlushFailure e w) = tmpfile w"
  "flushFailureCount (recordFlushFailure e w) = Suc (flushFailureCount w)"
  "lastFlushError (recordFlushFailure e w) = Some e"
  "store (recordFlushSuccess w) = store w" "jsonl (recordFlushSuccess w) = jsonl w"
  "tmpfile (recordFlushSuccess w) = tmpfile w"
  "flushFailureCount (recordFlushSuccess w) = 0"
  "lastFlushError (recordFlushSuccess w) = None"
  "stderr (recordFlushSuccess w) = stderr w"
  by (simp_all add: recordFlushFailure_def recordFlushSuccess_def Let_def)

lemma encode_all_Inr: "encode_all E F xs = Inr b \<Longrightarrow> b = serialize E xs"
  by (induction xs arbitrary: b) (auto simp: serialize_def split: if_splits sum.splits)

lemma encode_all_ok:
  "encode_all E F xs = Inr (serialize E xs) \<longleftrightarrow> (\<forall>x \<in> set xs. FEncode (ID x) \<notin> set F)"
  by (induction xs) (auto simp: serialize_def split: if_splits sum.splits)

lemma write_failed:
  assumes "writeJSONLAtomically E xs w = (Some e, w')"
  shows "w' = (if FCreate \<in> set (fs_failing w) then w else w\<lparr>tmpfile := None\<rparr>)"
  using assms by (auto simp: writeJSONLAtomically_def split: if_splits sum.splits)

lemma write_done:
  assumes "writeJSONLAtomically E xs w = (None, w')"
  shows "w' = w\<lparr>jsonl := Some (serialize E xs), tmpfile := None\<rparr>"
  using assms encode_all_Inr [of E "fs_failing w" xs]
  by (auto simp: writeJSONLAtomically_def split: if_splits sum.splits)

lemma flush_run:
  assumes "storeActive w" and "isDirty w" and "GetDirtyIssues (store w) = Inr ids" and "ids \<noteq> []"
  shows "flushToJSONL E c w =
     (let w2 = snd (readExistingJSONL E (w\<lparr>isDirty := False, needsFullExport := False, store := c (store w)\<rparr>))
      in case flush_issues E c w of
           Inl err \<Rightarrow> recordFlushFailure err w2
         | Inr xs \<Rightarrow>
            (case writeJSONLAtomically E xs w2 of
               (Some err, w3) \<Rightarrow> recordFlushFailure err w3
             | (None, w3) \<Rightarrow> flush_commit E ids w3))"
proof -
  let ?w1 = "w\<lparr>isDirty := False, needsFullExport := False, store := c (store w)\<rparr>"
  have i: "ids = dirty (store w)"
    using assms(3) by (auto simp: GetDirtyIssues_def split: if_splits)
  have f: "fst (readExistingJSONL E ?w1) = fst (readExistingJSONL E w)"
    by (rule readExisting_fst_cong) simp_all
  have s: "store (snd (readExistingJSONL E ?w1)) = c (store w)"
    using same_but_stderr_sel(1) [OF readExisting_same [of ?w1 E]] by simp
  show ?thesis
    using assms f s i
    by (simp add: flushToJSONL_def flush_issues_def case_prod_beta Let_def
        split: sum.splits option.splits)
qed


lemma flush_commit_sel [simp]:
  "jsonl (flush_commit E ids w) = jsonl w" "tmpfile (flush_commit E ids w) = tmpfile w"
  "flushFailureCount (flush_commit E ids w) = 0" "lastFlushError (flush_commit E ids w) = None"
  by (simp_all add: flush_commit_def Let_def split: sum.splits)

lemma flush_jsonl:
  "jsonl (flushToJSONL E c w) = jsonl w
   \<or> (\<exists>xs. flush_issues E c w = Inr xs \<and> jsonl (flushToJSONL E c w) = Some (serialize E xs))"
proof (cases "storeActive w \<and> isDirty w")
  case False
  then show ?thesis by (auto simp: flushToJSONL_def)
next
  case run: True
  show ?thesis
  proof (cases "GetDirtyIssues (store w)")
    case (Inl e)
    then show ?thesis using run by (simp add: flushToJSONL_def)
  next
    case (Inr ids)
    show ?thesis
    proof (cases "ids = []")
      case True
      then show ?thesis using run Inr by (simp add: flushToJSONL_def)
    next
      case False
      let ?w2 = "snd (readExistingJSONL E
                   (w\<lparr>isDirty := False, needsFullExport := False, store := c (store w)\<rparr>))"
      have j2: "jsonl ?w2 = jsonl w"
        using same_but_stderr_sel(2) [OF readExisting_same] by simp
      note r = flush_run [of w ids E c, simplified Let_def]
      show ?thesis
      proof (cases "flush_issues E c w")
        case (Inl e)
        then show ?thesis using r run Inr False j2 by simp
      next
        case xs: (Inr xs)
        obtain res w3 where wr: "writeJSONLAtomically E xs ?w2 = (res, w3)"
          by (cases "writeJSONLAtomically E xs ?w2")
        show ?thesis
        proof (cases res)
          case None
          then show ?thesis using r run Inr False xs wr write_done [of E xs ?w2 w3] by simp
        next
          case (Some e)
          then have "jsonl w3 = jsonl ?w2"
            using wr write_failed [of E xs ?w2 e w3] by (simp split: if_splits)
          then show ?thesis using r run Inr False xs wr Some j2 by simp
        qed
      qed
    qed
  qed
qed






lemmas example_defs = world_flush_def example_world_def empty_store_def example_env_def
  line_Unmarshal_def line_Marshal_def stored_alpha_def stored_beta_def blank_issue_def
  journal_corrupt_def flushed_example_def journal_flushed_def pad_digest_def

lemmas run_defs = flushToJSONL_def flush_commit_def readExistingJSONL_def os_Open_def
  os_ReadFile_def Scanner_lines_def scan_pieces_def dropCR_def MaxScanTokenSize_def
  writeJSONLAtomically_def GetDirtyIssues_def ClearDirtyIssuesByID_def SetMetadata_def
  GetMetadata_def GetIssue_def GetDependencyRecords_def fails_def recordFlushSuccess_def
  recordFlushFailure_def eprint_def call_error_def Let_def

lemmas more_defs = world_rename_fails_def world_create_tmp_fails_def mark_alpha_dirty_def
  world_nothing_dirty_def world_clear_fails_def
  world_hash_write_fails_def imported_alpha_def world_first_import_def world_unparsable_def
  world_detect_fails_def world_search_fails_def world_create_fails_def alpha_v2_def
  journal_v2_def world_collision_def journal_one_def

lemmas import_defs = autoImportIfNewer_def validateJSONLHash_def checkMergeConflicts_def
  parseJSONLIssues_def handleCollisions_def importIssuesFromJSONL_def import_one_def
  importDependenciesFromJSONL_def import_deps_of_def import_dep_def
  DetectCollisions_def detect_one_def same_content_def ScoreCollisions_def RemapCollisions_def
  SearchIssues_def CreateIssue_def UpdateIssue_def enforce_I1_def mark_dirty_def
  fresh_id_def id_prefix_def showCollisionRemapping_def collision_title_def filterCollidingIssues_def
  buildIssueUpdates_def enforceClosedAtInvariant_def is_conflict_marker_def HasPrefix_def
  ascii_TrimSpace_def ascii_space_def debug_def

lemma flush_issues_example: "flush_issues example_env id world_flush = Inr flushed_example"
  by (simp add: flush_issues_def run_defs example_defs)

lemma flush_example:
  "flushToJSONL example_env id world_flush =
     world_flush\<lparr>store := (store world_flush)\<lparr>dirty := [],
                      metadata := [(''last_import_hash'', pad_digest journal_flushed)]\<rparr>,
       jsonl := Some journal_flushed, isDirty := False, flushFailureCount := 0,
       stderr := [''Warning: skipping malformed JSONL line 2: invalid character'']\<rparr>"
  by (simp add: run_defs example_defs itoa.simps digit_def)

text \<open>
  Claim C8. A flush either leaves the journal file as it is or replaces it by the
  serialisation of the issues it collected, one line each; and the issues a flush
  collects are always in ascending order of id, with no id twice. That order is the
  only one: any list of the same entities that ascends by id is the same list, so two
  flushes of the same set of entities write their lines in the same order.
\<close>

theorem C8_flush_writes_ascending_ids:
  "(jsonl (flushToJSONL E c w) = jsonl w
      \<or> (\<exists>xs. flush_issues E c w = Inr xs
                \<and> jsonl (flushToJSONL E c w) = Some (serialize E xs)))
   \<and> (\<forall>xs. flush_issues E c w = Inr xs
          \<longrightarrow> ascending_ids xs
              \<and> (\<forall>ys. set ys = set xs \<and> ascending_ids ys \<longrightarrow> ys = xs))"
  using flush_jsonl [of E c w] flush_issues_ascending [of E c w] ascending_unique
  by blast

theorem C8_flush_writes_ascending_ids_witness:
  "flush_issues example_env id world_flush = Inr flushed_example
   \<and> ascending_ids flushed_example
   \<and> map ID flushed_example = [''bd-1'', ''bd-2'', ''bd-3'']
   \<and> jsonl (flushToJSONL example_env id world_flush)
       = Some (serialize example_env flushed_example)"
proof -
  have a: "ascending_ids flushed_example"
    using C8_flush_writes_ascending_ids [of example_env id world_flush] flush_issues_example
    by blast
  have s: "serialize example_env flushed_example = journal_flushed"
    by (simp add: serialize_def example_defs)
  have i: "map ID flushed_example = [''bd-1'', ''bd-2'', ''bd-3'']"
    by (simp add: example_defs)
  show ?thesis using a s i flush_issues_example by (simp add: flush_example)
qed



subsection \<open>Failure and success of a flush\<close>

lemma flush_commit_store:
  "dirty (store (flush_commit E ids w))
     = (if fails (store w) CClearDirtyIssuesByID then dirty (store w)
        else filter (\<lambda>i. i \<notin> set ids) (dirty (store w)))"
  by (simp add: flush_commit_def Let_def ClearDirtyIssuesByID_def SetMetadata_def fails_def
      split: sum.splits)

lemma flush_commit_hash:
  assumes "os_ReadFile w = Inr j"
    and "\<not> fails (store w) (CSetMetadata ''last_import_hash'')"
    and "\<not> fails (store w) (CGetMetadata ''last_import_hash'')"
  shows "GetMetadata (store (flush_commit E ids w)) ''last_import_hash'' = Inr (sha256_hex E j)"
proof -
  have r: "os_ReadFile (case ClearDirtyIssuesByID (store w) ids of
               Inl err \<Rightarrow> eprint (''Warning: failed to clear dirty issues: '' @ err) w
             | Inr s \<Rightarrow> w\<lparr>store := s\<rparr>) = Inr j"
    using assms(1) by (auto simp: os_ReadFile_def split: sum.splits if_splits)
  show ?thesis using assms(2,3) r
    by (simp add: flush_commit_def Let_def ClearDirtyIssuesByID_def SetMetadata_def GetMetadata_def
        fails_def AList.update_conv' split: sum.splits)
qed

lemma write_result:
  "writeJSONLAtomically E xs w =
     (if FCreate \<in> set (fs_failing w)
      then (Some ''failed to create temp file: create error'', w)
      else if \<exists>x \<in> set xs. FEncode (ID x) \<in> set (fs_failing w)
      then (fst (writeJSONLAtomically E xs w), w\<lparr>tmpfile := None\<rparr>)
      else if FClose \<in> set (fs_failing w)
      then (Some ''failed to close temp file: close error'', w\<lparr>tmpfile := None\<rparr>)
      else if FRename \<in> set (fs_failing w)
      then (Some ''failed to rename file: rename error'', w\<lparr>tmpfile := None\<rparr>)
      else (None, w\<lparr>jsonl := Some (serialize E xs), tmpfile := None\<rparr>))"
  using encode_all_ok [of E "fs_failing w" xs] encode_all_Inr [of E "fs_failing w" xs]
  by (auto simp: writeJSONLAtomically_def split: sum.splits)

lemma encode_all_Inl:
  "\<exists>x \<in> set xs. FEncode (ID x) \<in> set F \<Longrightarrow> isl (encode_all E F xs)"
  using encode_all_ok [of E F xs] encode_all_Inr [of E F xs]
  by (cases "encode_all E F xs") auto

lemma write_fails_iff:
  "fst (writeJSONLAtomically E xs w) = None \<longleftrightarrow>
     FCreate \<notin> set (fs_failing w) \<and> FClose \<notin> set (fs_failing w) \<and> FRename \<notin> set (fs_failing w)
     \<and> (\<forall>x \<in> set xs. FEncode (ID x) \<notin> set (fs_failing w))"
  using encode_all_ok [of E "fs_failing w" xs] encode_all_Inr [of E "fs_failing w" xs]
  by (auto simp: writeJSONLAtomically_def split: sum.splits)

lemma write_snd_failed:
  "FCreate \<notin> set (fs_failing w) \<Longrightarrow> fst (writeJSONLAtomically E xs w) = Some e
    \<Longrightarrow> snd (writeJSONLAtomically E xs w) = w\<lparr>tmpfile := None\<rparr>"
  by (auto simp: writeJSONLAtomically_def split: sum.splits if_splits)

text \<open>
  Claim C5 (amended). Take a flush that runs: the store is active, the dirty flag is set,
  the dirty ids \<open>ids\<close> are read and not empty, and the issues \<open>xs\<close> to write are
  collected. If creating the temp file fails, no temp file is made; if encoding an
  issue, closing the temp file or the rename fails, the temp file is removed. In both
  cases the flush does nothing to the store (the dirty set is as the other threads left
  it, so the next flush that runs reads the same ids), the journal file is as before
  and the failure is counted. If the write succeeds the flush succeeds, and
  \<^verbatim>\<open>ClearDirtyIssuesByID\<close> is called with the ids read at the start: when that call
  succeeds exactly those ids leave the dirty set, when it fails the dirty set stays as
  it is; either way an id that became dirty after the read, and was not among the ids
  read, is still dirty.
\<close>

theorem C5_flush_failure_and_clear:
  assumes "storeActive w" and "isDirty w" and "GetDirtyIssues (store w) = Inr ids"
    and "ids \<noteq> []" and "flush_issues E c w = Inr xs"
  shows "(FCreate \<in> set (fs_failing w)
            \<longrightarrow> tmpfile (flushToJSONL E c w) = tmpfile w
                \<and> store (flushToJSONL E c w) = c (store w)
                \<and> jsonl (flushToJSONL E c w) = jsonl w
                \<and> flushFailureCount (flushToJSONL E c w) = Suc (flushFailureCount w))
       \<and> (FCreate \<notin> set (fs_failing w)
            \<and> (FClose \<in> set (fs_failing w) \<or> FRename \<in> set (fs_failing w)
                 \<or> (\<exists>x \<in> set xs. FEncode (ID x) \<in> set (fs_failing w)))
            \<longrightarrow> tmpfile (flushToJSONL E c w) = None
                \<and> store (flushToJSONL E c w) = c (store w)
                \<and> jsonl (flushToJSONL E c w) = jsonl w
                \<and> flushFailureCount (flushToJSONL E c w) = Suc (flushFailureCount w))
       \<and> (FCreate \<notin> set (fs_failing w) \<and> FClose \<notin> set (fs_failing w)
            \<and> FRename \<notin> set (fs_failing w)
            \<and> (\<forall>x \<in> set xs. FEncode (ID x) \<notin> set (fs_failing w))
            \<longrightarrow> flushFailureCount (flushToJSONL E c w) = 0
                \<and> jsonl (flushToJSONL E c w) = Some (serialize E xs)
                \<and> tmpfile (flushToJSONL E c w) = None
                \<and> dirty (store (flushToJSONL E c w))
                    = (if fails (c (store w)) CClearDirtyIssuesByID then dirty (c (store w))
                       else filter (\<lambda>i. i \<notin> set ids) (dirty (c (store w))))
                \<and> (\<forall>i \<in> set (dirty (c (store w))).
                      i \<notin> set ids \<longrightarrow> i \<in> set (dirty (store (flushToJSONL E c w)))))"
proof -
  let ?w2 = "snd (readExistingJSONL E
               (w\<lparr>isDirty := False, needsFullExport := False, store := c (store w)\<rparr>))"
  note s = same_but_stderr_sel [OF readExisting_same [of "w\<lparr>isDirty := False, needsFullExport := False, store := c (store w)\<rparr>" E]]
  have s2: "store ?w2 = c (store w)" "jsonl ?w2 = jsonl w" "tmpfile ?w2 = tmpfile w"
    "fs_failing ?w2 = fs_failing w" "flushFailureCount ?w2 = flushFailureCount w"
    using s by simp_all
  have r: "flushToJSONL E c w =
     (case writeJSONLAtomically E xs ?w2 of
        (Some err, w3) \<Rightarrow> recordFlushFailure err w3
      | (None, w3) \<Rightarrow> flush_commit E ids w3)"
    using flush_run [OF assms(1-4), of E c] assms(5) by (simp add: Let_def)
  note wr = write_result [of E xs ?w2, unfolded s2]
  show ?thesis
  proof (intro conjI impI)
    assume "FCreate \<in> set (fs_failing w)"
    then have "flushToJSONL E c w = recordFlushFailure ''failed to create temp file: create error'' ?w2"
      using r wr by simp
    then show "tmpfile (flushToJSONL E c w) = tmpfile w" "store (flushToJSONL E c w) = c (store w)"
      "jsonl (flushToJSONL E c w) = jsonl w" "flushFailureCount (flushToJSONL E c w) = Suc (flushFailureCount w)"
      using s2 by simp_all
  next
    assume a: "FCreate \<notin> set (fs_failing w)
            \<and> (FClose \<in> set (fs_failing w) \<or> FRename \<in> set (fs_failing w)
                 \<or> (\<exists>x \<in> set xs. FEncode (ID x) \<in> set (fs_failing w)))"
    then have "fst (writeJSONLAtomically E xs ?w2) \<noteq> None"
      using write_fails_iff [of E xs ?w2] s2 by auto
    then obtain e where e: "fst (writeJSONLAtomically E xs ?w2) = Some e" by auto
    have "snd (writeJSONLAtomically E xs ?w2) = ?w2\<lparr>tmpfile := None\<rparr>"
      using a e s2 write_snd_failed [of ?w2 E xs e] by simp
    then have "flushToJSONL E c w = recordFlushFailure e (?w2\<lparr>tmpfile := None\<rparr>)"
      using r e by (simp add: case_prod_beta)
    then show "tmpfile (flushToJSONL E c w) = None" "store (flushToJSONL E c w) = c (store w)"
      "jsonl (flushToJSONL E c w) = jsonl w" "flushFailureCount (flushToJSONL E c w) = Suc (flushFailureCount w)"
      using s2 by simp_all
  next
    assume a: "FCreate \<notin> set (fs_failing w) \<and> FClose \<notin> set (fs_failing w)
            \<and> FRename \<notin> set (fs_failing w)
            \<and> (\<forall>x \<in> set xs. FEncode (ID x) \<notin> set (fs_failing w))"
    then have f: "flushToJSONL E c w = flush_commit E ids (?w2\<lparr>jsonl := Some (serialize E xs), tmpfile := None\<rparr>)"
      using r wr by auto
    show "flushFailureCount (flushToJSONL E c w) = 0" "jsonl (flushToJSONL E c w) = Some (serialize E xs)"
      "tmpfile (flushToJSONL E c w) = None"
      using f by simp_all
    show d: "dirty (store (flushToJSONL E c w))
                    = (if fails (c (store w)) CClearDirtyIssuesByID then dirty (c (store w))
                       else filter (\<lambda>i. i \<notin> set ids) (dirty (c (store w))))"
      using f s2 by (simp add: flush_commit_store)
    show "\<forall>i \<in> set (dirty (c (store w))).
                      i \<notin> set ids \<longrightarrow> i \<in> set (dirty (store (flushToJSONL E c w)))"
      using d by simp
  qed
qed

lemma flush_issues_rename_fails:
  "flush_issues example_env id world_rename_fails = Inr flushed_example"
  by (simp add: flush_issues_def run_defs example_defs more_defs)

lemma flush_issues_create_tmp_fails:
  "flush_issues example_env id world_create_tmp_fails = Inr flushed_example"
  by (simp add: flush_issues_def run_defs example_defs more_defs)

lemma flush_issues_marked:
  "flush_issues example_env mark_alpha_dirty world_flush = Inr flushed_example"
  by (simp add: flush_issues_def run_defs example_defs more_defs)

theorem C5_flush_failure_and_clear_witness:
  "tmpfile (flushToJSONL example_env id world_create_tmp_fails) = Some ''stale''
   \<and> jsonl (flushToJSONL example_env id world_create_tmp_fails) = Some journal_corrupt
   \<and> dirty (store (flushToJSONL example_env id world_create_tmp_fails)) = [''bd-2'']
   \<and> tmpfile (flushToJSONL example_env id world_rename_fails) = None
   \<and> store (flushToJSONL example_env id world_rename_fails) = store world_rename_fails
   \<and> jsonl (flushToJSONL example_env id world_rename_fails) = Some journal_corrupt
   \<and> flushFailureCount (flushToJSONL example_env id world_rename_fails) = 3
   \<and> jsonl (flushToJSONL example_env mark_alpha_dirty world_flush) = Some journal_flushed
   \<and> dirty (mark_alpha_dirty (store world_flush)) = [''bd-2'', ''bd-1'']
   \<and> dirty (store (flushToJSONL example_env mark_alpha_dirty world_flush)) = [''bd-1'']"
proof -
  have a1: "storeActive world_rename_fails" "isDirty world_rename_fails"
    "GetDirtyIssues (store world_rename_fails) = Inr [''bd-2'']" "[''bd-2''] \<noteq> ([] :: string list)"
    by (simp_all add: run_defs example_defs more_defs)
  have f1: "FCreate \<notin> set (fs_failing world_rename_fails)
    \<and> (FClose \<in> set (fs_failing world_rename_fails) \<or> FRename \<in> set (fs_failing world_rename_fails)
         \<or> (\<exists>x \<in> set flushed_example. FEncode (ID x) \<in> set (fs_failing world_rename_fails)))"
    by (simp add: example_defs more_defs)
  have v1: "jsonl world_rename_fails = Some journal_corrupt" "flushFailureCount world_rename_fails = 2"
    by (simp_all add: example_defs more_defs)
  note t1 = C5_flush_failure_and_clear [OF a1 flush_issues_rename_fails]
  have a2: "storeActive world_flush" "isDirty world_flush"
    "GetDirtyIssues (store world_flush) = Inr [''bd-2'']"
    by (simp_all add: run_defs example_defs)
  have f2: "FCreate \<notin> set (fs_failing world_flush) \<and> FClose \<notin> set (fs_failing world_flush)
            \<and> FRename \<notin> set (fs_failing world_flush)
            \<and> (\<forall>x \<in> set flushed_example. FEncode (ID x) \<notin> set (fs_failing world_flush))"
    by (simp add: example_defs)
  have v2: "dirty (mark_alpha_dirty (store world_flush)) = [''bd-2'', ''bd-1'']"
    "\<not> fails (mark_alpha_dirty (store world_flush)) CClearDirtyIssuesByID"
    "serialize example_env flushed_example = journal_flushed"
    by (simp_all add: fails_def serialize_def example_defs more_defs)
  note t2 = C5_flush_failure_and_clear [OF a2 a1(4) flush_issues_marked]
  have a0: "storeActive world_create_tmp_fails" "isDirty world_create_tmp_fails"
    "GetDirtyIssues (store world_create_tmp_fails) = Inr [''bd-2'']"
    by (simp_all add: run_defs example_defs more_defs)
  have v0: "FCreate \<in> set (fs_failing world_create_tmp_fails)"
    "tmpfile world_create_tmp_fails = Some ''stale''"
    "jsonl world_create_tmp_fails = Some journal_corrupt"
    "dirty (store world_create_tmp_fails) = [''bd-2'']"
    by (simp_all add: example_defs more_defs)
  note t0 = C5_flush_failure_and_clear [OF a0 a1(4) flush_issues_create_tmp_fails]
  show ?thesis using t0 v0 t1 f1 v1 t2 f2 v2 by simp
qed

text \<open>The claim as it was stated fails where the store cannot clear the dirty ids: the
  flush goes on to its end, resets the failure counter and has written the journal,
  and the id that was read at the start is still dirty. And after a flush whose rename
  failed, a second call of \<^verbatim>\<open>flushToJSONL\<close> returns at once, also when the rename
  would now work: the dirty flag was taken down at the start of the first call, and the
  ids wait in the dirty set for a flush that a later mutation schedules.\<close>

theorem C5_flush_succeeds_without_clearing:
  "flushFailureCount world_clear_fails = 2
   \<and> GetDirtyIssues (store world_clear_fails) = Inr [''bd-2'']
   \<and> flushFailureCount (flushToJSONL example_env id world_clear_fails) = 0
   \<and> lastFlushError (flushToJSONL example_env id world_clear_fails) = None
   \<and> jsonl (flushToJSONL example_env id world_clear_fails) = Some journal_flushed
   \<and> dirty (store (flushToJSONL example_env id world_clear_fails)) = [''bd-2'']
   \<and> lastFlushError (flushToJSONL example_env id world_rename_fails)
        = Some ''failed to rename file: rename error''
   \<and> flushToJSONL example_env id
         ((flushToJSONL example_env id world_rename_fails)\<lparr>fs_failing := []\<rparr>)
        = (flushToJSONL example_env id world_rename_fails)\<lparr>fs_failing := []\<rparr>
   \<and> jsonl (flushToJSONL example_env id world_rename_fails) = Some journal_corrupt"
  by (simp add: run_defs example_defs more_defs itoa.simps digit_def)

subsection \<open>The import pipeline\<close>

lemma same_config_refl [simp]: "same_config s s"
  by (simp add: same_config_def)

lemma same_config_trans: "same_config a b \<Longrightarrow> same_config b c \<Longrightarrow> same_config a c"
  by (simp add: same_config_def)

lemma CreateIssue_config: "CreateIssue t s i = Inr s' \<Longrightarrow> same_config s s'"
  by (auto simp: CreateIssue_def same_config_def split: if_splits)

lemma UpdateIssue_config: "UpdateIssue t s i us = Inr s' \<Longrightarrow> same_config s s'"
  by (auto simp: UpdateIssue_def same_config_def split: if_splits option.splits sum.splits)

lemma AddDependency_config: "AddDependency s d = Inr s' \<Longrightarrow> same_config s s'"
  by (auto simp: AddDependency_def same_config_def split: if_splits)

lemma remap_all_config: "remap_all t cs (s, m) = Inr (s', m') \<Longrightarrow> same_config s s'"
proof (induction cs arbitrary: s m)
  case Nil then show ?case by simp
next
  case (Cons c cs)
  then show ?case
    by (auto simp: Let_def split: sum.splits dest!: CreateIssue_config intro: same_config_trans)
qed

lemma handleCollisions_Inl: "handleCollisions E xs w = (Inl e, w') \<Longrightarrow> w' = w"
  by (auto simp: handleCollisions_def split: sum.splits if_splits prod.splits)

lemma showCollisionRemapping_sel [simp]:
  "store (showCollisionRemapping m cs w) = store w" "jsonl (showCollisionRemapping m cs w) = jsonl w"
  "is_sqlite (showCollisionRemapping m cs w) = is_sqlite w"
  by (simp_all add: showCollisionRemapping_def Let_def)

lemma handleCollisions_config:
  "handleCollisions E xs w = (r, w') \<Longrightarrow> same_config (store w) (store w') \<and> jsonl w' = jsonl w"
  by (auto simp: handleCollisions_def RemapCollisions_def split: sum.splits if_splits prod.splits
      dest: remap_all_config)

lemma handleCollisions_fst:
  "store w1 = store w \<Longrightarrow> fst (handleCollisions E xs w1) = fst (handleCollisions E xs w)"
  by (simp add: handleCollisions_def split: sum.splits prod.splits)

lemma import_one_config:
  "same_config (store w) (store (import_one E m i w)) \<and> jsonl (import_one E m i w) = jsonl w"
  by (auto simp: import_one_def split: option.splits sum.splits
      dest: CreateIssue_config UpdateIssue_config)

lemma fold_import_one_config:
  "same_config (store w) (store (fold (import_one E m) xs w)) \<and> jsonl (fold (import_one E m) xs w) = jsonl w"
proof (induction xs arbitrary: w)
  case Nil then show ?case by simp
next
  case (Cons x xs)
  show ?case using Cons.IH [of "import_one E m x w"] import_one_config [of w E m x]
    by (auto intro: same_config_trans)
qed

lemma import_dep_config:
  "same_config (store w) (store (import_dep ds d w)) \<and> jsonl (import_dep ds d w) = jsonl w"
  by (auto simp: import_dep_def split: sum.splits dest: AddDependency_config)

lemma fold_import_dep_config:
  "same_config (store w) (store (fold (import_dep ds) xs w)) \<and> jsonl (fold (import_dep ds) xs w) = jsonl w"
proof (induction xs arbitrary: w)
  case Nil then show ?case by simp
next
  case (Cons x xs)
  show ?case using Cons.IH [of "import_dep ds x w"] import_dep_config [of w ds x]
    by (auto intro: same_config_trans)
qed

lemma import_deps_of_config:
  "same_config (store w) (store (import_deps_of i w)) \<and> jsonl (import_deps_of i w) = jsonl w"
  using fold_import_dep_config by (auto simp: import_deps_of_def split: sum.splits)

lemma importDependencies_config:
  "same_config (store w) (store (importDependenciesFromJSONL xs w))
   \<and> jsonl (importDependenciesFromJSONL xs w) = jsonl w"
  unfolding importDependenciesFromJSONL_def
proof (induction xs arbitrary: w)
  case Nil then show ?case by simp
next
  case (Cons x xs)
  show ?case using Cons.IH [of "import_deps_of x w"] import_deps_of_config [of w x]
    by (auto intro: same_config_trans)
qed

lemma importIssues_config:
  "same_config (store w) (store (snd (importIssuesFromJSONL E xs w)))
   \<and> jsonl (snd (importIssuesFromJSONL E xs w)) = jsonl w"
  using fold_import_one_config by (auto simp: importIssuesFromJSONL_def Let_def split: sum.splits)

lemma importIssues_fst:
  "fst (importIssuesFromJSONL E xs w)
     = (if fails (store w) CSearchIssues
        then Some (''error fetching existing issues: '' @ call_error CSearchIssues) else None)"
  by (simp add: importIssuesFromJSONL_def SearchIssues_def Let_def)

lemma importIssues_failed:
  "fails (store w) CSearchIssues \<Longrightarrow> snd (importIssuesFromJSONL E xs w) = w"
  by (simp add: importIssuesFromJSONL_def SearchIssues_def Let_def)

lemma fails_config: "same_config s s' \<Longrightarrow> fails s' c = fails s c"
  by (simp add: same_config_def fails_def)

text \<open>The pipeline behind the hash gate.\<close>

lemma autoImport_run:
  assumes "fst (validateJSONLHash E w) = (p, d, h, True)"
    and "\<not> list_ex (is_conflict_marker E) (bytes_Split_nl d)"
    and "parseJSONLIssues E d = Inr allIssues"
    and "is_sqlite w"
  shows "autoImportIfNewer E w =
     (let w1 = snd (validateJSONLHash E w) in
      case handleCollisions E allIssues w1 of
        (Inl err, w3) \<Rightarrow> eprint (''Auto-import failed: '' @ err) w3
      | (Inr filtered, w3) \<Rightarrow>
          if fails (store w3) CSearchIssues
          then eprint (''Auto-import failed: error fetching existing issues: '' @ call_error CSearchIssues) w3
          else import_tail E h filtered w3)"
proof -
  obtain w1 where v: "validateJSONLHash E w = ((p, d, h, True), w1)"
    using assms(1) by (cases "validateJSONLHash E w") auto
  have s: "is_sqlite w1"
    using same_but_stderr_sel(5) [OF validate_same [of w E]] v assms(4) by simp
  show ?thesis
    using v assms(2,3) s
    by (auto simp add: autoImportIfNewer_def checkMergeConflicts_def import_tail_def Let_def
         importIssues_fst importIssues_failed case_prod_beta
        split: sum.splits prod.splits option.splits)
qed

lemma validate_fst_jsonl:
  assumes "fst (validateJSONLHash E w) = (p, d, h, True)"
  shows "jsonl w = Some d" and "h = sha256_hex E d" and "os_ReadFile w = Inr d"
proof -
  obtain w1 where "validateJSONLHash E w = ((p, d, h, True), w1)"
    using assms by (cases "validateJSONLHash E w") auto
  from validate_True [OF this] show "os_ReadFile w = Inr d" and "h = sha256_hex E d" by simp_all
  then show "jsonl w = Some d"
    by (auto simp: os_ReadFile_def split: if_splits option.splits)
qed

lemma import_tail_config:
  "same_config (store w) (store (snd (importIssuesFromJSONL E xs w)))
   \<Longrightarrow> same_config (store w)
        (store (importDependenciesFromJSONL xs (snd (importIssuesFromJSONL E xs w))))"
  using importDependencies_config same_config_trans by blast

lemma import_tail_hash:
  assumes "\<not> fails (store w) (CSetMetadata ''last_import_hash'')"
  shows "map_of (metadata (store (import_tail E h xs w))) ''last_import_hash'' = Some h"
    and "jsonl (import_tail E h xs w) = jsonl w"
    and "failing (store (import_tail E h xs w)) = failing (store w)"
proof -
  let ?w5 = "importDependenciesFromJSONL xs (snd (importIssuesFromJSONL E xs w))"
  have c: "same_config (store w) (store ?w5)" and j: "jsonl ?w5 = jsonl w"
    using importIssues_config [of w E xs]
      importDependencies_config [of "snd (importIssuesFromJSONL E xs w)" xs]
    by (auto intro: same_config_trans)
  have nf: "\<not> fails (store ?w5) (CSetMetadata ''last_import_hash'')"
    using assms fails_config [OF c] by simp
  then have t: "import_tail E h xs w
           = ?w5\<lparr>store := (store ?w5)\<lparr>metadata := AList.update ''last_import_hash'' h (metadata (store ?w5))\<rparr>\<rparr>"
    by (simp add: import_tail_def SetMetadata_def Let_def)
  show "map_of (metadata (store (import_tail E h xs w))) ''last_import_hash'' = Some h"
    by (simp add: t AList.update_conv')
  show "jsonl (import_tail E h xs w) = jsonl w" by (simp add: t j)
  show "failing (store (import_tail E h xs w)) = failing (store w)"
    using c by (simp add: t same_config_def)
qed

text \<open>
  Claim C4 (amended). After a flush that wrote the journal, read it back and stored the
  hash (no file operation fails, \<^verbatim>\<open>SetMetadata\<close> does not fail), and after an import
  that passed the hash gate, the conflict check, the parse, the collision handling and the
  batch fetch and whose \<^verbatim>\<open>SetMetadata\<close> does not fail, the stored
  \<^verbatim>\<open>last_import_hash\<close> is the SHA-256 of the bytes of the journal file.
\<close>

theorem C4_hash_after_flush_and_import:
  "(storeActive w \<and> isDirty w \<and> GetDirtyIssues (store w) = Inr ids \<and> ids \<noteq> []
      \<and> flush_issues E c w = Inr xs
      \<and> FCreate \<notin> set (fs_failing w) \<and> FClose \<notin> set (fs_failing w)
      \<and> FRename \<notin> set (fs_failing w) \<and> (\<forall>x \<in> set xs. FEncode (ID x) \<notin> set (fs_failing w))
      \<and> FReadFile \<notin> set (fs_failing w)
      \<and> \<not> fails (c (store w)) (CSetMetadata ''last_import_hash'')
      \<and> \<not> fails (c (store w)) (CGetMetadata ''last_import_hash'')
    \<longrightarrow> jsonl (flushToJSONL E c w) = Some (serialize E xs)
        \<and> GetMetadata (store (flushToJSONL E c w)) ''last_import_hash''
            = Inr (sha256_hex E (serialize E xs)))
   \<and> (fst (validateJSONLHash E w) = (p, d, h, True)
      \<and> \<not> list_ex (is_conflict_marker E) (bytes_Split_nl d)
      \<and> parseJSONLIssues E d = Inr allIssues \<and> is_sqlite w
      \<and> fst (handleCollisions E allIssues w) = Inr filtered
      \<and> \<not> fails (store w) CSearchIssues
      \<and> \<not> fails (store w) (CSetMetadata ''last_import_hash'')
      \<and> \<not> fails (store w) (CGetMetadata ''last_import_hash'')
    \<longrightarrow> jsonl (autoImportIfNewer E w) = Some d
        \<and> GetMetadata (store (autoImportIfNewer E w)) ''last_import_hash''
            = Inr (sha256_hex E d))"
proof (intro conjI impI)
  assume a: "storeActive w \<and> isDirty w \<and> GetDirtyIssues (store w) = Inr ids \<and> ids \<noteq> []
      \<and> flush_issues E c w = Inr xs
      \<and> FCreate \<notin> set (fs_failing w) \<and> FClose \<notin> set (fs_failing w)
      \<and> FRename \<notin> set (fs_failing w) \<and> (\<forall>x \<in> set xs. FEncode (ID x) \<notin> set (fs_failing w))
      \<and> FReadFile \<notin> set (fs_failing w)
      \<and> \<not> fails (c (store w)) (CSetMetadata ''last_import_hash'')
      \<and> \<not> fails (c (store w)) (CGetMetadata ''last_import_hash'')"
  let ?w2 = "snd (readExistingJSONL E
               (w\<lparr>isDirty := False, needsFullExport := False, store := c (store w)\<rparr>))"
  note s = same_but_stderr_sel [OF readExisting_same [of "w\<lparr>isDirty := False, needsFullExport := False, store := c (store w)\<rparr>" E]]
  have s2: "store ?w2 = c (store w)" "fs_failing ?w2 = fs_failing w"
    using s by simp_all
  let ?w3 = "?w2\<lparr>jsonl := Some (serialize E xs), tmpfile := None\<rparr>"
  have f: "flushToJSONL E c w = flush_commit E ids ?w3"
    using flush_run [of w ids E c] a write_result [of E xs ?w2, unfolded s2]
    by (simp add: Let_def)
  have r: "os_ReadFile ?w3 = Inr (serialize E xs)"
    using a s2 by (simp add: os_ReadFile_def)
  show "jsonl (flushToJSONL E c w) = Some (serialize E xs)" by (simp add: f)
  show "GetMetadata (store (flushToJSONL E c w)) ''last_import_hash''
            = Inr (sha256_hex E (serialize E xs))"
    unfolding f using flush_commit_hash [OF r, of E ids] a s2 by simp
next
  assume a: "fst (validateJSONLHash E w) = (p, d, h, True)
      \<and> \<not> list_ex (is_conflict_marker E) (bytes_Split_nl d)
      \<and> parseJSONLIssues E d = Inr allIssues \<and> is_sqlite w
      \<and> fst (handleCollisions E allIssues w) = Inr filtered
      \<and> \<not> fails (store w) CSearchIssues
      \<and> \<not> fails (store w) (CSetMetadata ''last_import_hash'')
      \<and> \<not> fails (store w) (CGetMetadata ''last_import_hash'')"
  let ?w1 = "snd (validateJSONLHash E w)"
  note v = same_but_stderr_sel [OF validate_same [of w E]]
  obtain w3 where hc: "handleCollisions E allIssues ?w1 = (Inr filtered, w3)"
    using a handleCollisions_fst [of ?w1 w E allIssues] v(1)
    by (cases "handleCollisions E allIssues ?w1") auto
  have c3: "same_config (store w) (store w3)" and j3: "jsonl w3 = jsonl w"
    using handleCollisions_config [OF hc] v by simp_all
  have nf: "\<not> fails (store w3) CSearchIssues"
    "\<not> fails (store w3) (CSetMetadata ''last_import_hash'')"
    using a fails_config [OF c3] by simp_all
  have r: "autoImportIfNewer E w = import_tail E h filtered w3"
    using autoImport_run [of E w p d h allIssues] a hc nf by (simp add: Let_def)
  have hd: "h = sha256_hex E d" and jd: "jsonl w = Some d"
    using validate_fst_jsonl [of E w p d h] a by simp_all
  have g: "\<not> fails (store (import_tail E h filtered w3)) (CGetMetadata ''last_import_hash'')"
    using import_tail_hash(3) [OF nf(2), of E h filtered] c3 a
    by (simp add: fails_def same_config_def)
  show "jsonl (autoImportIfNewer E w) = Some d"
    using r import_tail_hash(2) [OF nf(2), of E h filtered] j3 jd by simp
  show "GetMetadata (store (autoImportIfNewer E w)) ''last_import_hash'' = Inr (sha256_hex E d)"
    using r import_tail_hash(1) [OF nf(2), of E h filtered] g hd
    by (simp add: GetMetadata_def)
qed

lemma gate_first_import:
  "fst (validateJSONLHash example_env world_first_import)
     = (''.beads/issues.jsonl'', journal_one, pad_digest journal_one, True)"
  by (simp add: import_defs run_defs example_defs more_defs)

lemma parse_journal_one: "parseJSONLIssues example_env journal_one = Inr [imported_alpha]"
  by (simp add: import_defs run_defs example_defs more_defs)

lemma no_conflict_journal_one:
  "\<not> list_ex (is_conflict_marker example_env) (bytes_Split_nl journal_one)"
  by (simp add: import_defs example_defs more_defs)

theorem C4_hash_after_flush_and_import_witness:
  "jsonl (flushToJSONL example_env id world_flush) = Some journal_flushed
   \<and> GetMetadata (store (flushToJSONL example_env id world_flush)) ''last_import_hash''
       = Inr (sha256_hex example_env journal_flushed)
   \<and> jsonl (autoImportIfNewer example_env world_first_import) = Some journal_one
   \<and> GetMetadata (store (autoImportIfNewer example_env world_first_import)) ''last_import_hash''
       = Inr (sha256_hex example_env journal_one)"
proof -
  have a: "storeActive world_flush \<and> isDirty world_flush
      \<and> GetDirtyIssues (store world_flush) = Inr [''bd-2''] \<and> [''bd-2''] \<noteq> ([] :: string list)
      \<and> flush_issues example_env id world_flush = Inr flushed_example
      \<and> FCreate \<notin> set (fs_failing world_flush) \<and> FClose \<notin> set (fs_failing world_flush)
      \<and> FRename \<notin> set (fs_failing world_flush)
      \<and> (\<forall>x \<in> set flushed_example. FEncode (ID x) \<notin> set (fs_failing world_flush))
      \<and> FReadFile \<notin> set (fs_failing world_flush)
      \<and> \<not> fails (id (store world_flush)) (CSetMetadata ''last_import_hash'')
      \<and> \<not> fails (id (store world_flush)) (CGetMetadata ''last_import_hash'')"
    using flush_issues_example by (simp add: run_defs example_defs)
  have s: "serialize example_env flushed_example = journal_flushed"
    by (simp add: serialize_def example_defs)
  have b: "fst (validateJSONLHash example_env world_first_import)
             = (''.beads/issues.jsonl'', journal_one, pad_digest journal_one, True)
      \<and> \<not> list_ex (is_conflict_marker example_env) (bytes_Split_nl journal_one)
      \<and> parseJSONLIssues example_env journal_one = Inr [imported_alpha]
      \<and> is_sqlite world_first_import
      \<and> fst (handleCollisions example_env [imported_alpha] world_first_import) = Inr [imported_alpha]
      \<and> \<not> fails (store world_first_import) CSearchIssues
      \<and> \<not> fails (store world_first_import) (CSetMetadata ''last_import_hash'')
      \<and> \<not> fails (store world_first_import) (CGetMetadata ''last_import_hash'')"
    using gate_first_import parse_journal_one no_conflict_journal_one
    by (simp add: import_defs run_defs example_defs more_defs)
  from C4_hash_after_flush_and_import
         [where w = world_flush and ids = "[''bd-2'']" and E = example_env and c = id
            and xs = flushed_example] a s
  have 1: "jsonl (flushToJSONL example_env id world_flush) = Some journal_flushed
     \<and> GetMetadata (store (flushToJSONL example_env id world_flush)) ''last_import_hash''
       = Inr (sha256_hex example_env journal_flushed)"
    by simp
  from C4_hash_after_flush_and_import
         [where w = world_first_import and E = example_env and p = "''.beads/issues.jsonl''"
            and d = journal_one and h = "pad_digest journal_one"
            and allIssues = "[imported_alpha]" and filtered = "[imported_alpha]"] b
  have 2: "jsonl (autoImportIfNewer example_env world_first_import) = Some journal_one
   \<and> GetMetadata (store (autoImportIfNewer example_env world_first_import)) ''last_import_hash''
       = Inr (sha256_hex example_env journal_one)"
    by blast
  show ?thesis using 1 2 by simp
qed

text \<open>The claim as it was stated fails where the store cannot write the hash: the
  flush warns, goes on to its end and resets the failure counter, the journal is
  written, and \<^verbatim>\<open>last_import_hash\<close> is still empty. It fails as well, with no call
  failing, for a flush that finds no dirty id: it records a success and leaves the
  hash, here empty, beside a journal that has another.\<close>

theorem C4_flush_succeeds_without_hash:
  "flushFailureCount world_hash_write_fails = 2
   \<and> flushFailureCount (flushToJSONL example_env id world_hash_write_fails) = 0
   \<and> lastFlushError (flushToJSONL example_env id world_hash_write_fails) = None
   \<and> jsonl (flushToJSONL example_env id world_hash_write_fails) = Some journal_flushed
   \<and> GetMetadata (store (flushToJSONL example_env id world_hash_write_fails)) ''last_import_hash''
        = Inr []
   \<and> sha256_hex example_env journal_flushed \<noteq> []
   \<and> flushFailureCount world_nothing_dirty = 2
   \<and> flushFailureCount (flushToJSONL example_env id world_nothing_dirty) = 0
   \<and> jsonl (flushToJSONL example_env id world_nothing_dirty) = Some journal_one
   \<and> GetMetadata (store (flushToJSONL example_env id world_nothing_dirty)) ''last_import_hash''
        = Inr []
   \<and> sha256_hex example_env journal_one \<noteq> []"
  by (simp add: run_defs example_defs more_defs itoa.simps digit_def)

text \<open>
  Claim C6 (amended). Let the hash gate be open, the journal free of conflict markers
  and the backend SQLite. A parse error, an error of the collision handling and an
  error of the batch fetch of the existing issues each stop the import: the error is
  the last line on standard error and \<^verbatim>\<open>last_import_hash\<close> is not written (for the
  first two nothing but standard error changes). Past the batch fetch nothing stops
  the import: whatever \<^verbatim>\<open>UpdateIssue\<close>, \<^verbatim>\<open>CreateIssue\<close>, \<^verbatim>\<open>GetDependencyRecords\<close>
  and \<^verbatim>\<open>AddDependency\<close> return, the new hash is stored when \<^verbatim>\<open>SetMetadata\<close> does
  not fail.
\<close>

theorem C6_import_abort_and_discard:
  assumes "fst (validateJSONLHash E w) = (p, d, h, True)"
    and "\<not> list_ex (is_conflict_marker E) (bytes_Split_nl d)"
    and "is_sqlite w"
  shows "(\<forall>e. parseJSONLIssues E d = Inl e
            \<longrightarrow> same_but_stderr w (autoImportIfNewer E w)
                \<and> last (stderr (autoImportIfNewer E w)) = ''Auto-import skipped: '' @ e)
       \<and> (\<forall>allIssues e. parseJSONLIssues E d = Inr allIssues
              \<and> fst (handleCollisions E allIssues w) = Inl e
            \<longrightarrow> same_but_stderr w (autoImportIfNewer E w)
                \<and> last (stderr (autoImportIfNewer E w)) = ''Auto-import failed: '' @ e)
       \<and> (\<forall>allIssues filtered. parseJSONLIssues E d = Inr allIssues
              \<and> fst (handleCollisions E allIssues w) = Inr filtered
              \<and> fails (store w) CSearchIssues
            \<longrightarrow> metadata (store (autoImportIfNewer E w)) = metadata (store w)
                \<and> last (stderr (autoImportIfNewer E w))
                    = ''Auto-import failed: error fetching existing issues: database error'')
       \<and> (\<forall>allIssues filtered. parseJSONLIssues E d = Inr allIssues
              \<and> fst (handleCollisions E allIssues w) = Inr filtered
              \<and> \<not> fails (store w) CSearchIssues
              \<and> \<not> fails (store w) (CSetMetadata ''last_import_hash'')
            \<longrightarrow> map_of (metadata (store (autoImportIfNewer E w))) ''last_import_hash'' = Some h)"
proof -
  let ?w1 = "snd (validateJSONLHash E w)"
  note v = same_but_stderr_sel [OF validate_same [of w E]]
  have sb: "same_but_stderr w ?w1" by (rule validate_same)
  obtain w1 where vv: "validateJSONLHash E w = ((p, d, h, True), w1)"
    using assms(1) by (cases "validateJSONLHash E w") auto
  show ?thesis
  proof (intro conjI allI impI)
    fix e assume pe: "parseJSONLIssues E d = Inl e"
    have "autoImportIfNewer E w = eprint (''Auto-import skipped: '' @ e) ?w1"
      using vv assms(2) pe by (simp add: autoImportIfNewer_def checkMergeConflicts_def)
    then show "same_but_stderr w (autoImportIfNewer E w)"
      and "last (stderr (autoImportIfNewer E w)) = ''Auto-import skipped: '' @ e"
      using sb by simp_all
  next
    fix allIssues e
    assume a: "parseJSONLIssues E d = Inr allIssues \<and> fst (handleCollisions E allIssues w) = Inl e"
    then obtain w3 where hc: "handleCollisions E allIssues ?w1 = (Inl e, w3)"
      using handleCollisions_fst [of ?w1 w E allIssues] v(1)
      by (cases "handleCollisions E allIssues ?w1") auto
    have "w3 = ?w1" using handleCollisions_Inl [OF hc] .
    then have "autoImportIfNewer E w = eprint (''Auto-import failed: '' @ e) ?w1"
      using autoImport_run [OF assms(1,2) _ assms(3), of allIssues] a hc by (simp add: Let_def)
    then show "same_but_stderr w (autoImportIfNewer E w)"
      and "last (stderr (autoImportIfNewer E w)) = ''Auto-import failed: '' @ e"
      using sb by simp_all
  next
    fix allIssues filtered
    assume a: "parseJSONLIssues E d = Inr allIssues
              \<and> fst (handleCollisions E allIssues w) = Inr filtered
              \<and> fails (store w) CSearchIssues"
    then obtain w3 where hc: "handleCollisions E allIssues ?w1 = (Inr filtered, w3)"
      using handleCollisions_fst [of ?w1 w E allIssues] v(1)
      by (cases "handleCollisions E allIssues ?w1") auto
    have c3: "same_config (store w) (store w3)"
      using handleCollisions_config [OF hc] v by simp
    have "fails (store w3) CSearchIssues" using a fails_config [OF c3] by simp
    then have "autoImportIfNewer E w
       = eprint (''Auto-import failed: error fetching existing issues: '' @ call_error CSearchIssues) w3"
      using autoImport_run [OF assms(1,2) _ assms(3), of allIssues] a hc by (simp add: Let_def)
    then show "metadata (store (autoImportIfNewer E w)) = metadata (store w)"
      and "last (stderr (autoImportIfNewer E w))
                    = ''Auto-import failed: error fetching existing issues: database error''"
      using c3 by (simp_all add: same_config_def call_error_def)
  next
    fix allIssues filtered
    assume a: "parseJSONLIssues E d = Inr allIssues
              \<and> fst (handleCollisions E allIssues w) = Inr filtered
              \<and> \<not> fails (store w) CSearchIssues
              \<and> \<not> fails (store w) (CSetMetadata ''last_import_hash'')"
    then obtain w3 where hc: "handleCollisions E allIssues ?w1 = (Inr filtered, w3)"
      using handleCollisions_fst [of ?w1 w E allIssues] v(1)
      by (cases "handleCollisions E allIssues ?w1") auto
    have c3: "same_config (store w) (store w3)"
      using handleCollisions_config [OF hc] v by simp
    have nf: "\<not> fails (store w3) CSearchIssues"
      "\<not> fails (store w3) (CSetMetadata ''last_import_hash'')"
      using a fails_config [OF c3] by simp_all
    have "autoImportIfNewer E w = import_tail E h filtered w3"
      using autoImport_run [OF assms(1,2) _ assms(3), of allIssues] a hc nf by (simp add: Let_def)
    then show "map_of (metadata (store (autoImportIfNewer E w))) ''last_import_hash'' = Some h"
      using import_tail_hash(1) [OF nf(2)] by simp
  qed
qed

lemma gate_open:
  "fst (validateJSONLHash example_env world_unparsable)
     = (''.beads/issues.jsonl'', ''not json'' @ [CHR 0x0A], pad_digest (''not json'' @ [CHR 0x0A]), True)"
  "fst (validateJSONLHash example_env world_detect_fails)
     = (''.beads/issues.jsonl'', journal_one, pad_digest journal_one, True)"
  "fst (validateJSONLHash example_env world_search_fails)
     = (''.beads/issues.jsonl'', journal_one, pad_digest journal_one, True)"
  "fst (validateJSONLHash example_env world_create_fails)
     = (''.beads/issues.jsonl'', journal_one, pad_digest journal_one, True)"
  by (simp_all add: import_defs run_defs example_defs more_defs)

theorem C6_import_abort_and_discard_witness:
  "same_but_stderr world_unparsable (autoImportIfNewer example_env world_unparsable)
   \<and> last (stderr (autoImportIfNewer example_env world_unparsable))
       = ''Auto-import skipped: parse error at line 1: invalid character'' @ [CHR 0x0A]
         @ ''Snippet: not json''
   \<and> same_but_stderr world_detect_fails (autoImportIfNewer example_env world_detect_fails)
   \<and> last (stderr (autoImportIfNewer example_env world_detect_fails))
       = ''Auto-import failed: collision detection error: database error''
   \<and> metadata (store (autoImportIfNewer example_env world_search_fails)) = []
   \<and> last (stderr (autoImportIfNewer example_env world_search_fails))
       = ''Auto-import failed: error fetching existing issues: database error''
   \<and> map_of (metadata (store (autoImportIfNewer example_env world_create_fails)))
        ''last_import_hash'' = Some (pad_digest journal_one)"
proof -
  have nc: "\<not> list_ex (is_conflict_marker example_env) (bytes_Split_nl (''not json'' @ [CHR 0x0A]))"
    by (simp add: import_defs example_defs)
  have sq: "is_sqlite world_unparsable" "is_sqlite world_detect_fails"
    "is_sqlite world_search_fails" "is_sqlite world_create_fails"
    by (simp_all add: example_defs more_defs)
  have p0: "parseJSONLIssues example_env (''not json'' @ [CHR 0x0A])
              = Inl (''parse error at line 1: invalid character'' @ [CHR 0x0A] @ ''Snippet: not json'')"
    by (simp add: import_defs run_defs example_defs snippet_def itoa.simps digit_def)
  have h1: "fst (handleCollisions example_env [imported_alpha] world_detect_fails)
              = Inl ''collision detection error: database error''"
    by (simp add: import_defs run_defs example_defs more_defs)
  have h2: "fst (handleCollisions example_env [imported_alpha] world_search_fails) = Inr [imported_alpha]"
    "fails (store world_search_fails) CSearchIssues" "metadata (store world_search_fails) = []"
    by (simp_all add: import_defs run_defs example_defs more_defs)
  have h3: "fst (handleCollisions example_env [imported_alpha] world_create_fails) = Inr [imported_alpha]"
    "\<not> fails (store world_create_fails) CSearchIssues"
    "\<not> fails (store world_create_fails) (CSetMetadata ''last_import_hash'')"
    by (simp_all add: import_defs run_defs example_defs more_defs)
  note t0 = C6_import_abort_and_discard [OF gate_open(1) nc sq(1)]
  note t1 = C6_import_abort_and_discard [OF gate_open(2) no_conflict_journal_one sq(2)]
  note t2 = C6_import_abort_and_discard [OF gate_open(3) no_conflict_journal_one sq(3)]
  note t3 = C6_import_abort_and_discard [OF gate_open(4) no_conflict_journal_one sq(4)]
  have 0: "same_but_stderr world_unparsable (autoImportIfNewer example_env world_unparsable)
   \<and> last (stderr (autoImportIfNewer example_env world_unparsable))
       = ''Auto-import skipped: parse error at line 1: invalid character'' @ [CHR 0x0A]
         @ ''Snippet: not json''"
    using t0 p0 by simp
  have 1: "same_but_stderr world_detect_fails (autoImportIfNewer example_env world_detect_fails)
   \<and> last (stderr (autoImportIfNewer example_env world_detect_fails))
       = ''Auto-import failed: collision detection error: database error''"
    using t1 parse_journal_one h1 by simp
  have 2: "metadata (store (autoImportIfNewer example_env world_search_fails)) = []
   \<and> last (stderr (autoImportIfNewer example_env world_search_fails))
       = ''Auto-import failed: error fetching existing issues: database error''"
    using t2 parse_journal_one h2 by simp
  have 3: "map_of (metadata (store (autoImportIfNewer example_env world_create_fails)))
        ''last_import_hash'' = Some (pad_digest journal_one)"
    using t3 parse_journal_one h3 by blast
  show ?thesis using 0 1 2 3 by blast
qed

text \<open>The claim as it was stated fails where the creation of the only entity of the
  journal returns an error: nothing is created, nothing is printed, and the new hash is
  stored.\<close>

theorem C6_failed_create_still_persists_hash:
  "parseJSONLIssues example_env journal_one = Inr [imported_alpha]
   \<and> CreateIssue (now example_env) (store world_create_fails)
        (enforceClosedAtInvariant example_env imported_alpha) = Inl ''database error''
   \<and> issues (store (autoImportIfNewer example_env world_create_fails)) = []
   \<and> stderr (autoImportIfNewer example_env world_create_fails) = []
   \<and> metadata (store world_create_fails) = []
   \<and> metadata (store (autoImportIfNewer example_env world_create_fails))
        = [(''last_import_hash'', sha256_hex example_env journal_one)]"
  by (simp add: import_defs run_defs example_defs more_defs itoa.simps digit_def)

subsection \<open>Collisions\<close>

lemma enforce_I1_ID [simp]: "ID (enforce_I1 t i) = ID i"
  by (simp add: enforce_I1_def split: option.splits)

lemma remap_all_issues:
  "remap_all t cs (s, m) = Inr (s', m') \<Longrightarrow>
     \<exists>news. length news = length cs
        \<and> issues s' = issues s @ map (\<lambda>(c, n). enforce_I1 t ((IncomingIssue c)\<lparr>ID := n\<rparr>)) (zip cs news)
        \<and> set news \<inter> set (map ID (issues s)) = {}"
proof (induction cs arbitrary: s m)
  case Nil
  then show ?case by simp
next
  case (Cons c cs)
  let ?new = "fresh_id (id_prefix (CollisionID c)) (map ID (issues s))"
  let ?i = "(IncomingIssue c)\<lparr>ID := ?new\<rparr>"
  obtain s1 where c1: "CreateIssue t s ?i = Inr s1"
    and r: "remap_all t cs (s1, AList.update (CollisionID c) ?new m) = Inr (s', m')"
    using Cons.prems by (auto simp: Let_def split: sum.splits)
  have f: "?new \<notin> set (map ID (issues s))" and i1: "issues s1 = issues s @ [enforce_I1 t ?i]"
    using c1 by (auto simp: CreateIssue_def split: if_splits)
  from Cons.IH [OF r] obtain news where n: "length news = length cs"
    "issues s' = issues s1 @ map (\<lambda>(c, n). enforce_I1 t ((IncomingIssue c)\<lparr>ID := n\<rparr>)) (zip cs news)"
    "set news \<inter> set (map ID (issues s1)) = {}"
    by blast
  have "length (?new # news) = length (c # cs)" using n(1) by simp
  moreover have "issues s' = issues s @ map (\<lambda>(c, n). enforce_I1 t ((IncomingIssue c)\<lparr>ID := n\<rparr>)) (zip (c # cs) (?new # news))"
    using n(2) i1 by simp
  moreover have "set (?new # news) \<inter> set (map ID (issues s)) = {}"
    using n(3) i1 f by auto
  ultimately show ?case by blast
qed

lemma scored_IncomingIssue:
  "map (\<lambda>(c, n). enforce_I1 t ((IncomingIssue c)\<lparr>ID := n\<rparr>)) (zip (map (\<lambda>c. c\<lparr>Score := f c\<rparr>) cs) news)
    = map (\<lambda>(c, n). enforce_I1 t ((IncomingIssue c)\<lparr>ID := n\<rparr>)) (zip cs news)"
  by (induction cs arbitrary: news) (auto simp: zip_Cons1 split: list.splits)

lemma detect_one_ID: "c \<in> set (detect_one s i) \<Longrightarrow> CollisionID c = ID i"
  by (auto simp: detect_one_def split: option.splits if_splits)

lemma colliding_ids:
  "set (map CollisionID (concat (map (detect_one s) xs))) = ID ` {j \<in> set xs. detect_one s j \<noteq> []}"
proof -
  have "CollisionID ` set (detect_one s j) = (if detect_one s j = [] then {} else {ID j})" for j
    by (cases "find (\<lambda>x. ID x = ID j) (issues s)") (simp_all add: detect_one_def)
  then have "CollisionID ` (\<Union>j \<in> set xs. set (detect_one s j))
               = (\<Union>j \<in> set xs. if detect_one s j = [] then {} else {ID j})"
    by (simp add: image_UN)
  also have "\<dots> = ID ` {j \<in> set xs. detect_one s j \<noteq> []}"
    by (auto split: if_splits)
  finally show ?thesis by simp
qed

text \<open>
  Claim C1 (amended). When \<^verbatim>\<open>handleCollisions\<close> succeeds, every incoming issue whose id
  is stored with different content is taken out of the list that is upserted, together
  with every other incoming issue of the same id, whatever its similarity to the stored
  issue and whatever the threshold; the incoming issue of each collision is created
  under an id that was not in use, and the stored issues stay as they are. No
  collision is applied as an update.
\<close>

theorem C1_collisions_are_remapped:
  assumes "handleCollisions E allIssues w = (Inr filtered, w')"
    and "collisions = concat (map (detect_one (store w)) allIssues)"
  shows "filtered = filter (\<lambda>i. ID i \<notin> ID ` {j \<in> set allIssues. detect_one (store w) j \<noteq> []}) allIssues
       \<and> (\<forall>i \<in> set allIssues. detect_one (store w) i \<noteq> [] \<longrightarrow> i \<notin> set filtered)
       \<and> (\<exists>news. length news = length collisions
              \<and> issues (store w') = issues (store w)
                   @ map (\<lambda>(c, n). enforce_I1 (now E) ((IncomingIssue c)\<lparr>ID := n\<rparr>)) (zip collisions news)
              \<and> set news \<inter> set (map ID (issues (store w))) = {})"
proof -
  have d: "DetectCollisions (store w) allIssues = Inr collisions"
    using assms by (auto simp: handleCollisions_def DetectCollisions_def split: sum.splits if_splits)
  have ids: "set (map CollisionID collisions) = ID ` {j \<in> set allIssues. detect_one (store w) j \<noteq> []}"
    using assms(2) colliding_ids by simp
  show ?thesis
  proof (cases "collisions = []")
    case True
    then have e: "filtered = allIssues" "w' = w"
      using assms(1) d by (auto simp: handleCollisions_def)
    have h: "{j \<in> set allIssues. detect_one (store w) j \<noteq> []} = {}"
      using ids True by simp
    have 1: "filtered = filter (\<lambda>i. ID i \<notin> ID ` {j \<in> set allIssues. detect_one (store w) j \<noteq> []}) allIssues"
      using e(1) by (simp only: h) simp
    have 2: "\<forall>i \<in> set allIssues. detect_one (store w) i \<noteq> [] \<longrightarrow> i \<notin> set filtered"
      using h by blast
    have 3: "\<exists>news. length news = length collisions
              \<and> issues (store w') = issues (store w)
                   @ map (\<lambda>(c, n). enforce_I1 (now E) ((IncomingIssue c)\<lparr>ID := n\<rparr>)) (zip collisions news)
              \<and> set news \<inter> set (map ID (issues (store w))) = {}"
      using e(2) True by simp
    show ?thesis using 1 2 3 by blast
  next
    case False
    let ?scored = "map (\<lambda>c. c\<lparr>Score := similarity E (IncomingIssue c) (ExistingIssue c)\<rparr>) collisions"
    obtain s' m' where r: "remap_all (now E) ?scored (store w, []) = Inr (s', m')"
      and f: "filtered = filterCollidingIssues allIssues ?scored"
      and w': "store w' = s'"
      using assms(1) d False
      by (auto simp: handleCollisions_def ScoreCollisions_def RemapCollisions_def SearchIssues_def
          split: sum.splits if_splits prod.splits)
    have sid: "map CollisionID ?scored = map CollisionID collisions" by (simp add: comp_def)
    have 1: "filtered = filter (\<lambda>i. ID i \<notin> ID ` {j \<in> set allIssues. detect_one (store w) j \<noteq> []}) allIssues"
      using f ids sid by (simp add: filterCollidingIssues_def)
    from remap_all_issues [OF r] obtain news where n: "length news = length collisions"
      "issues s' = issues (store w) @ map (\<lambda>(c, n). enforce_I1 (now E) ((IncomingIssue c)\<lparr>ID := n\<rparr>)) (zip ?scored news)"
      "set news \<inter> set (map ID (issues (store w))) = {}"
      by auto
    have 3: "\<exists>news. length news = length collisions
              \<and> issues (store w') = issues (store w)
                   @ map (\<lambda>(c, n). enforce_I1 (now E) ((IncomingIssue c)\<lparr>ID := n\<rparr>)) (zip collisions news)
              \<and> set news \<inter> set (map ID (issues (store w))) = {}"
      using n w' scored_IncomingIssue [of "now E" _ collisions news] by auto
    have 2: "\<forall>i \<in> set allIssues. detect_one (store w) i \<noteq> [] \<longrightarrow> i \<notin> set filtered"
      by (subst 1) auto
    show ?thesis using 1 2 3 by blast
  qed
qed

theorem C1_collisions_are_remapped_witness:
  "detect_one (store world_collision) alpha_v2
     = [\<lparr>CollisionID = ''bd-1'', IncomingIssue = alpha_v2, ExistingIssue = stored_alpha, Score = 0\<rparr>]
   \<and> fst (handleCollisions example_env [alpha_v2] world_collision) = Inr []
   \<and> (\<exists>new. new \<noteq> ''bd-1''
         \<and> issues (store (snd (handleCollisions example_env [alpha_v2] world_collision)))
             = [stored_alpha, alpha_v2\<lparr>ID := new\<rparr>])"
proof -
  have d: "detect_one (store world_collision) alpha_v2
     = [\<lparr>CollisionID = ''bd-1'', IncomingIssue = alpha_v2, ExistingIssue = stored_alpha, Score = 0\<rparr>]"
    by (simp add: detect_one_def same_content_def example_defs more_defs)
  have f: "fst (handleCollisions example_env [alpha_v2] world_collision) = Inr []"
    by (simp add: import_defs run_defs example_defs more_defs itoa.simps digit_def)
  then have hc: "handleCollisions example_env [alpha_v2] world_collision
              = (Inr [], snd (handleCollisions example_env [alpha_v2] world_collision))"
    by (metis prod.collapse)
  have i: "issues (store world_collision) = [stored_alpha]" "ID stored_alpha = ''bd-1''"
    "enforce_I1 (now example_env) (alpha_v2\<lparr>ID := n\<rparr>) = alpha_v2\<lparr>ID := n\<rparr>" for n
    by (simp_all add: enforce_I1_def example_defs more_defs)
  from C1_collisions_are_remapped [OF hc refl] d i
  obtain news where n: "length news = 1"
    "issues (store (snd (handleCollisions example_env [alpha_v2] world_collision)))
       = [stored_alpha] @ map (\<lambda>(c, n). enforce_I1 (now example_env) ((IncomingIssue c)\<lparr>ID := n\<rparr>))
             (zip [\<lparr>CollisionID = ''bd-1'', IncomingIssue = alpha_v2, ExistingIssue = stored_alpha, Score = 0\<rparr>] news)"
    "set news \<inter> {''bd-1''} = {}"
    by auto
  from n(1) obtain new where nw: "news = [new]" by (cases news) auto
  have "new \<noteq> ''bd-1''" using n(3) nw by simp
  moreover have "issues (store (snd (handleCollisions example_env [alpha_v2] world_collision)))
             = [stored_alpha, alpha_v2\<lparr>ID := new\<rparr>]"
    using n(2) nw i(3) by simp
  ultimately show ?thesis using d f by blast
qed

text \<open>The claim as it was stated fails for an incoming \<^verbatim>\<open>bd-1\<close> of the same type and
  priority as the stored one (similarity 1, threshold 1) and another title: the stored
  issue keeps its title and the incoming one is created as \<^verbatim>\<open>bd-2\<close>.\<close>

theorem C1_similar_collision_is_remapped:
  "parseJSONLIssues example_env journal_v2 = Inr [alpha_v2]
   \<and> issues (store world_collision) = [stored_alpha]
   \<and> ID alpha_v2 = ID stored_alpha \<and> \<not> same_content alpha_v2 stored_alpha
   \<and> threshold example_env \<le> similarity example_env alpha_v2 stored_alpha
   \<and> issues (store (autoImportIfNewer example_env world_collision))
        = [stored_alpha, alpha_v2\<lparr>ID := ''bd-2''\<rparr>]"
  by (simp add: import_defs run_defs example_defs more_defs itoa.simps digit_def)

end
